theory Spec2Isabelle
  imports Main
begin

section \<open>The FeatherS2 run-time and its software timers\<close>

text \<open>
  A shallow embedding of \<^verbatim>\<open>devices/feathers2.py\<close>: the class \<^verbatim>\<open>RunStates\<close>, the
  life-cycle methods of \<^verbatim>\<open>FeatherS2\<close> (\<^verbatim>\<open>startup\<close>, \<^verbatim>\<open>shutdown\<close>, \<^verbatim>\<open>run\<close>,
  \<^verbatim>\<open>finish\<close>, \<^verbatim>\<open>update_timers\<close>, \<^verbatim>\<open>add_timer\<close>) and the class \<^verbatim>\<open>Timer\<close>.

  Conventions of the model.
  \<^item> Python objects are mutated in place; the model passes the state explicitly. A
    \<^verbatim>\<open>Timer\<close> object lives in a store (\<open>heap\<close>) under a reference, and the dictionary
    \<^verbatim>\<open>self.timers\<close> maps names to references, so that a callback holding
    \<^verbatim>\<open>source\<close> and the dictionary see the same object.
  \<^item> An exception (any instance of \<^verbatim>\<open>Exception\<close>) is the value \<open>Inl (ex, state)\<close>: the
    state reached when it was raised is kept, since the mutations made so far persist.
  \<^item> The \<^verbatim>\<open>while not self.finished\<close> loop may run forever: \<open>None\<close> is "does not
    return".
  \<^item> \<^verbatim>\<open>monotonic_ns()\<close> reads the field \<open>clock\<close>; hooks and callbacks advance it by
    the time they take.
  \<^item> The accumulator \<^verbatim>\<open>duration\<close> of a timer is a Python number: the float
    \<^verbatim>\<open>0.0\<close> after \<^verbatim>\<open>reset\<close>, a float while integers are added to it, an integer
    once the timer has fired. Floats are IEEE doubles, as in CPython: a sum is rounded to
    the nearest double, ties to even.
  \<^item> Console output (\<^verbatim>\<open>print\<close>, \<^verbatim>\<open>sys.print_exception\<close>) changes nothing the
    life cycle reads and is left out; so are the configuration fields that
    \<^verbatim>\<open>startup\<close> only copies.
  \<^item> The fields that \<^verbatim>\<open>__init__\<close> sets to \<^verbatim>\<open>None\<close> start at \<open>False\<close>, \<open>0\<close> or the
    empty dictionary; \<^verbatim>\<open>run\<close> assigns each of them (in \<^verbatim>\<open>startup\<close>) before it
    reads it and before a hook can use it. Timers are registered on the state that
    \<^verbatim>\<open>startup\<close> leaves, never on the new object.
\<close>

subsection \<open>RunStates\<close>

definition NOT_STARTED :: int where "NOT_STARTED = 1"
definition STARTING :: int where "STARTING = 2"
definition INITIALISING :: int where "INITIALISING = 3"
definition LOOPING :: int where "LOOPING = 4"
definition DEINITIALISING :: int where "DEINITIALISING = 5"
definition SHUTTING_DOWN :: int where "SHUTTING_DOWN = 6"

subsection \<open>Data\<close>

datatype fault = Fault string

text \<open>Python numbers, as far as the accumulator of a timer takes them: an integer, or a
  float whose value is an integer (every float that arises is a sum of integers) or an
  infinity.\<close>

datatype pyfloat = Finite int | PosInf | NegInf

datatype number = PyInt int | PyFloat pyfloat

text \<open>The class \<^verbatim>\<open>Timer\<close>. \<open>callback\<close> names the callable (resolved by the application,
  see \<open>callbacks\<close> below), \<open>rtc\<close> is the optional clock source, and \<open>before_ns\<close> is
  the attribute \<^verbatim>\<open>before\<close>: an integer from the first \<^verbatim>\<open>reset\<close> on, and \<open>0\<close> for
  the \<^verbatim>\<open>0.0\<close> of \<^verbatim>\<open>__init__\<close> (subtracting either from an integer and adding the
  difference to a float gives the same float).\<close>

record timer =
  name :: string
  period :: int
  callback :: nat
  rtc :: "nat option"
  trigger_count :: int
  running :: bool
  paused :: bool
  duration :: number
  before_ns :: int

text \<open>The \<^verbatim>\<open>FeatherS2\<close> object together with the globals its code reads:
  \<open>name_counter\<close> is the class attribute \<^verbatim>\<open>Timer.name_counter\<close>, \<open>heap\<close> and
  \<open>next_ref\<close> the store of timer objects, \<open>clock\<close> the monotonic clock, \<open>rtc_datetime\<close>
  what a clock source reports, and \<open>user\<close> the attributes a derived class adds.\<close>

record 'u world =
  debug_on :: bool
  i2c_frequency :: int
  spi_frequency :: int
  use_wifi :: bool
  use_mqtt :: bool
  i2c :: bool
  spi :: bool
  app_rtc :: bool
  finished :: bool
  exit_code :: int
  run_state :: int
  timers :: "(string \<times> nat) list"
  name_counter :: nat
  heap :: "nat \<rightharpoonup> timer"
  next_ref :: nat
  clock :: int
  rtc_datetime :: "nat \<Rightarrow> int"
  user :: 'u

text \<open>What \<^verbatim>\<open>run\<close> did, in order: each assignment to \<^verbatim>\<open>run_state\<close> made by the
  run-time, each method it invoked, each timer callback it fired. The hooks cannot reach
  this record.\<close>

datatype event =
  Set_run_state int
  | Call_startup | Call_init | Call_update_timers | Call_loop | Call_deinit | Call_shutdown
  | Fired nat

type_synonym 'u sys = "'u world \<times> event list"
type_synonym 'u hook = "'u world \<Rightarrow> (fault \<times> 'u world) + 'u world"
type_synonym 'u outcome = "(fault \<times> 'u sys) + 'u sys"

text \<open>The methods a derived class overrides ("To be overriden by the derived app class"),
  the method \<^verbatim>\<open>shutdown\<close>, which a derived class can override as well (in the base
  class it only prints), and the callables the application registers with its timers:
  \<open>callbacks c src at\<close> is the call \<^verbatim>\<open>callback(source=src, triggered_at=at)\<close> of the
  callable named \<open>c\<close>.\<close>

record 'u hooks =
  init :: "'u hook"
  loop :: "'u hook"
  deinit :: "'u hook"
  shutdown :: "'u hook"
  callbacks :: "nat \<Rightarrow> nat \<Rightarrow> int option \<Rightarrow> 'u hook"

text \<open>The \<^verbatim>\<open>secrets\<close> dictionary: the five entries that \<^verbatim>\<open>startup\<close> branches on,
  which it reads first and in this order (\<open>None\<close>: the key is missing), and whether the
  nine entries it reads after them are all there.\<close>

record secrets =
  s_debug_on :: "bool option"
  s_i2c_frequency :: "int option"
  s_spi_frequency :: "int option"
  s_use_wifi :: "bool option"
  s_use_mqtt :: "bool option"
  s_others :: bool

text \<open>The board and its libraries, as \<^verbatim>\<open>startup\<close> meets them. \<open>secrets_module\<close> is the
  outcome of \<^verbatim>\<open>from secrets import secrets\<close>: \<open>Inr None\<close> is \<^verbatim>\<open>ImportError\<close>,
  \<open>Inl\<close> any other exception raised by the import. The others are the
  constructors \<^verbatim>\<open>busio.I2C\<close>, \<^verbatim>\<open>busio.SPI\<close>, \<^verbatim>\<open>rtc.RTC\<close> and the calls
  \<^verbatim>\<open>spi.try_lock\<close> (the result of the i-th attempt) and \<^verbatim>\<open>spi.configure\<close>; \<open>Some\<close>
  is the exception raised.\<close>

record platform =
  secrets_module :: "fault + secrets option"
  i2c_open :: "int option \<Rightarrow> fault option"
  spi_open :: "fault option"
  spi_try_lock :: "nat \<Rightarrow> bool"
  spi_configure :: "int \<Rightarrow> fault option"
  rtc_open :: "fault option"

subsection \<open>Dictionaries and strings\<close>

fun dict_set :: "('k \<times> 'v) list \<Rightarrow> 'k \<Rightarrow> 'v \<Rightarrow> ('k \<times> 'v) list" where
  "dict_set [] k v = [(k, v)]"
| "dict_set ((k', v') # d) k v =
     (if k' = k then (k, v) # d else (k', v') # dict_set d k v)"

definition dict_has :: "('k \<times> 'v) list \<Rightarrow> 'k \<Rightarrow> bool" where
  "dict_has d k = (k \<in> set (map fst d))"

definition dict_del :: "('k \<times> 'v) list \<Rightarrow> 'k \<Rightarrow> ('k \<times> 'v) list" where
  "dict_del d k = filter (\<lambda>kv. fst kv \<noteq> k) d"

text \<open>\<^verbatim>\<open>"{0}".format(n)\<close> for a natural number.\<close>

fun str_nat :: "nat \<Rightarrow> string" where
  "str_nat n =
     (if n < 10 then [''0123456789'' ! n]
      else str_nat (n div 10) @ [''0123456789'' ! (n mod 10)])"

declare str_nat.simps [simp del]

text \<open>Python's truth value of the argument \<^verbatim>\<open>name\<close>: \<^verbatim>\<open>None\<close> and the empty string are
  false.\<close>

definition truthy :: "string option \<Rightarrow> bool" where
  "truthy nm = (case nm of None \<Rightarrow> False | Some s \<Rightarrow> s \<noteq> [])"

subsection \<open>Exceptions of the interpreter and float arithmetic\<close>

definition KeyError :: fault where "KeyError = Fault ''KeyError''"
definition OverflowError :: fault where "OverflowError = Fault ''OverflowError''"
definition RuntimeError :: fault where "RuntimeError = Fault ''RuntimeError''"

text \<open>\<^verbatim>\<open>n.bit_length()\<close>\<close>

function bit_length :: "int \<Rightarrow> nat" where
  "bit_length n = (if n \<le> 0 then 0 else Suc (bit_length (n div 2)))"
  by pat_completeness auto
termination
  by (relation "measure nat") auto

declare bit_length.simps [simp del]

text \<open>The double nearest to the integer \<open>k\<close>, ties to even, with the exponent
  unbounded: integers of up to 53 bits are doubles; a longer one keeps its 53 leading bits
  \<open>q\<close>, rounded up when the rest \<open>r\<close> is more than half, or is half and \<open>q\<close> is odd.\<close>

definition round_double :: "int \<Rightarrow> int" where
  "round_double k =
     (let a = \<bar>k\<bar>; e = bit_length a - 53
      in if e = 0 then k
         else (let q = a div 2 ^ e; r = a mod 2 ^ e; h = 2 ^ (e - 1);
                   m = (if h < r \<or> (r = h \<and> odd q) then q + 1 else q)
               in sgn k * (m * 2 ^ e)))"

text \<open>\<^verbatim>\<open>float(k)\<close>, the conversion Python applies to the integer operand of a mixed
  sum: \<^verbatim>\<open>OverflowError\<close> when the nearest double is out of range. The result is the
  value of the double.\<close>

definition float_of_int :: "int \<Rightarrow> fault + int" where
  "float_of_int k =
     (if 2 ^ 1024 \<le> \<bar>round_double k\<bar> then Inl OverflowError else Inr (round_double k))"

text \<open>The sum of a float and a finite double of value \<open>v\<close>: rounded, and an infinity when
  out of range.\<close>

definition float_plus :: "pyfloat \<Rightarrow> int \<Rightarrow> pyfloat" where
  "float_plus f v =
     (case f of
        Finite a \<Rightarrow>
          (let b = round_double (a + v)
           in if 2 ^ 1024 \<le> b then PosInf else if b \<le> - (2 ^ 1024) then NegInf else Finite b)
      | PosInf \<Rightarrow> PosInf
      | NegInf \<Rightarrow> NegInf)"

text \<open>\<^verbatim>\<open>n + k\<close> and \<^verbatim>\<open>n >= k\<close> for a number \<open>n\<close> and an integer \<open>k\<close>. Python compares a
  float with an integer exactly.\<close>

definition plus_int :: "number \<Rightarrow> int \<Rightarrow> fault + number" where
  "plus_int n k =
     (case n of
        PyInt a \<Rightarrow> Inr (PyInt (a + k))
      | PyFloat f \<Rightarrow>
          (case float_of_int k of
             Inl ex \<Rightarrow> Inl ex
           | Inr v \<Rightarrow> Inr (PyFloat (float_plus f v))))"

definition at_least :: "number \<Rightarrow> int \<Rightarrow> bool" where
  "at_least n k =
     (case n of
        PyInt a \<Rightarrow> k \<le> a
      | PyFloat (Finite a) \<Rightarrow> k \<le> a
      | PyFloat PosInf \<Rightarrow> True
      | PyFloat NegInf \<Rightarrow> False)"

subsection \<open>Timer\<close>

definition monotonic_ns :: "'u world \<Rightarrow> int" where
  "monotonic_ns w = clock w"

text \<open>\<^verbatim>\<open>Timer.__init__\<close>: returns the reference of the new object, the object, and the
  state with the object stored and the name counter advanced when the name was
  generated.\<close>

definition Timer_init ::
  "int \<Rightarrow> nat \<Rightarrow> string option \<Rightarrow> nat option \<Rightarrow> 'u world \<Rightarrow> nat \<times> timer \<times> 'u world" where
  "Timer_init p cb nm clk w =
     (let (n, w1) =
            (if truthy nm then (case nm of Some s \<Rightarrow> s | None \<Rightarrow> [], w)
             else (''Timer-'' @ str_nat (name_counter w),
                   w\<lparr>name_counter := name_counter w + 1\<rparr>));
          t = \<lparr>name = n, period = p, callback = cb, rtc = clk, trigger_count = 0,
               running = False, paused = False, duration = PyFloat (Finite 0),
               before_ns = 0\<rparr>;
          r = next_ref w1
      in (r, t, w1\<lparr>heap := (heap w1)(r \<mapsto> t), next_ref := r + 1\<rparr>))"

text \<open>A method of the timer object at reference \<open>r\<close> that assigns fields.\<close>

definition on_timer :: "nat \<Rightarrow> (timer \<Rightarrow> timer) \<Rightarrow> 'u world \<Rightarrow> 'u world" where
  "on_timer r f w = (case heap w r of None \<Rightarrow> w | Some t \<Rightarrow> w\<lparr>heap := (heap w)(r \<mapsto> f t)\<rparr>)"

definition reset :: "nat \<Rightarrow> 'u world \<Rightarrow> 'u world" where
  "reset r w =
     on_timer r (\<lambda>t. t\<lparr>trigger_count := 0, duration := PyFloat (Finite 0),
                          before_ns := monotonic_ns w\<rparr>) w"

definition start :: "nat \<Rightarrow> 'u world \<Rightarrow> 'u world" where
  "start r w = on_timer r (\<lambda>t. t\<lparr>running := True, paused := False\<rparr>) (reset r w)"

definition stop :: "nat \<Rightarrow> 'u world \<Rightarrow> 'u world" where
  "stop r w = reset r (on_timer r (\<lambda>t. t\<lparr>running := False, paused := False\<rparr>) w)"

definition pause :: "nat \<Rightarrow> 'u world \<Rightarrow> 'u world" where
  "pause r w = on_timer r (\<lambda>t. t\<lparr>paused := True\<rparr>) w"

definition resume :: "nat \<Rightarrow> 'u world \<Rightarrow> 'u world" where
  "resume r w = on_timer r (\<lambda>t. t\<lparr>paused := False, before_ns := monotonic_ns w\<rparr>) w"

text \<open>\<^verbatim>\<open>Timer.update\<close>. The sum \<^verbatim>\<open>self.duration += now - self.before\<close> can raise
  \<^verbatim>\<open>OverflowError\<close>, before anything is assigned. The callback runs between the two
  clock readings \<open>now\<close> and \<open>after\<close>; when it raises, the three assignments after it are
  not made. (In Python the object under update is alive; for a reference that the store
  does not hold, the model leaves the state alone.)\<close>

definition update ::
  "(nat \<Rightarrow> nat \<Rightarrow> int option \<Rightarrow> 'u hook) \<Rightarrow> nat \<Rightarrow> 'u sys \<Rightarrow> 'u outcome" where
  "update cbs r s =
     (let w = fst s in
      case heap w r of
        None \<Rightarrow> Inr s
      | Some t \<Rightarrow>
          if running t \<and> \<not> paused t then
            (let now = monotonic_ns w
             in case plus_int (duration t) (now - before_ns t) of
                  Inl ex \<Rightarrow> Inl (ex, s)
                | Inr d \<Rightarrow>
                    (let t1 = t\<lparr>duration := d\<rparr>;
                         w1 = w\<lparr>heap := (heap w)(r \<mapsto> t1)\<rparr>
                     in if at_least (duration t1) (period t1 * 1000000) then
                          (let now_as_datetime =
                                 (case rtc t1 of
                                    None \<Rightarrow> None
                                  | Some c \<Rightarrow> Some (rtc_datetime w1 c))
                           in case cbs (callback t1) r now_as_datetime w1 of
                                Inl (ex, w2) \<Rightarrow> Inl (ex, (w2, snd s @ [Fired r]))
                              | Inr w2 \<Rightarrow>
                                  (let after = monotonic_ns w2
                                   in Inr (on_timer r
                                             (\<lambda>t2. t2\<lparr>duration := PyInt (after - now),
                                                      trigger_count := trigger_count t2 + 1,
                                                      before_ns := after\<rparr>) w2,
                                           snd s @ [Fired r])))
                        else Inr (w1\<lparr>heap := (heap w1)(r \<mapsto> t1\<lparr>before_ns := now\<rparr>)\<rparr>,
                                  snd s)))
          else Inr s)"

subsection \<open>FeatherS2: timer management\<close>

text \<open>\<^verbatim>\<open>update_timers\<close>: the loop over \<^verbatim>\<open>self.timers.values()\<close>, a view of the
  dictionary as it is at each step. \<open>update_each cbs ks i n\<close> is the rest of the loop:
  \<open>ks\<close> are the keys the dictionary had when the loop began, \<open>i\<close> the position of the
  next entry, \<open>n\<close> the number of entries still to come. Whenever the iterator is advanced
  (also when it finds the end) and a callback has added or removed keys in the meantime,
  the loop ends with \<^verbatim>\<open>RuntimeError\<close>, as CPython does when the size of the dictionary
  has changed (keys exchanged without a change of size are treated alike). While the keys
  are those of the beginning, position \<open>i\<close> exists. An exception of \<^verbatim>\<open>update\<close> ends the
  loop.\<close>

fun update_each ::
  "(nat \<Rightarrow> nat \<Rightarrow> int option \<Rightarrow> 'u hook) \<Rightarrow> string list \<Rightarrow> nat \<Rightarrow> nat \<Rightarrow> 'u sys \<Rightarrow> 'u outcome"
  where
  "update_each cbs ks i 0 s =
     (if map fst (timers (fst s)) = ks then Inr s else Inl (RuntimeError, s))"
| "update_each cbs ks i (Suc n) s =
     (if map fst (timers (fst s)) = ks then
        (case update cbs (snd (timers (fst s) ! i)) s of
           Inl e \<Rightarrow> Inl e
         | Inr s' \<Rightarrow> update_each cbs ks (Suc i) n s')
      else Inl (RuntimeError, s))"

definition update_timers ::
  "(nat \<Rightarrow> nat \<Rightarrow> int option \<Rightarrow> 'u hook) \<Rightarrow> 'u sys \<Rightarrow> 'u outcome" where
  "update_timers cbs s =
     update_each cbs (map fst (timers (fst s))) 0 (length (timers (fst s))) s"

text \<open>\<^verbatim>\<open>add_timer\<close>: the result is the new timer's reference, or \<open>None\<close> for Python's
  \<^verbatim>\<open>None\<close>.\<close>

definition add_timer ::
  "int \<Rightarrow> nat \<Rightarrow> string option \<Rightarrow> nat option \<Rightarrow> 'u world \<Rightarrow> nat option \<times> 'u world" where
  "add_timer p cb nm clk w =
     (if \<not> truthy nm \<or> \<not> (case nm of None \<Rightarrow> False | Some s \<Rightarrow> dict_has (timers w) s) then
        (let (r, t, w1) = Timer_init p cb nm clk w
         in (Some r, w1\<lparr>timers := dict_set (timers w1) (name t) r\<rparr>))
      else (None, w))"

definition remove_timer :: "string \<Rightarrow> 'u world \<Rightarrow> 'u world" where
  "remove_timer nm w = (if dict_has (timers w) nm then w\<lparr>timers := dict_del (timers w) nm\<rparr> else w)"

definition has_timer :: "string \<Rightarrow> 'u world \<Rightarrow> bool" where
  "has_timer nm w = dict_has (timers w) nm"

definition get_timer :: "string \<Rightarrow> 'u world \<Rightarrow> nat option" where
  "get_timer nm w = (if has_timer nm w then map_of (timers w) nm else None)"

definition start_timer :: "string \<Rightarrow> 'u world \<Rightarrow> 'u world" where
  "start_timer nm w = (if has_timer nm w then (case get_timer nm w of None \<Rightarrow> w | Some r \<Rightarrow> start r w) else w)"

definition start_all_timers :: "'u world \<Rightarrow> 'u world" where
  "start_all_timers w = fold start (map snd (timers w)) w"

definition finish :: "'u world \<Rightarrow> 'u world" where
  "finish w = w\<lparr>finished := True\<rparr>"

subsection \<open>FeatherS2: the life cycle\<close>

definition set_run_state :: "int \<Rightarrow> 'u sys \<Rightarrow> 'u sys" where
  "set_run_state v s = ((fst s)\<lparr>run_state := v\<rparr>, snd s @ [Set_run_state v])"

definition log_event :: "event \<Rightarrow> 'u sys \<Rightarrow> 'u sys" where
  "log_event e s = (fst s, snd s @ [e])"

text \<open>A call of an overridable method: the call is recorded, then the method runs.\<close>

definition invoke :: "event \<Rightarrow> 'u hook \<Rightarrow> 'u sys \<Rightarrow> 'u outcome" where
  "invoke e f s =
     (case f (fst s) of
        Inl (ex, w) \<Rightarrow> Inl (ex, (w, snd s @ [e]))
      | Inr w \<Rightarrow> Inr (w, snd s @ [e]))"

text \<open>Sequencing inside the \<^verbatim>\<open>try\<close> block: an exception or a loop that never ends
  skips what follows.\<close>

definition and_then ::
  "'u outcome option \<Rightarrow> ('u sys \<Rightarrow> 'u outcome option) \<Rightarrow> 'u outcome option" where
  "and_then m k = (case m of None \<Rightarrow> None | Some (Inl e) \<Rightarrow> Some (Inl e) | Some (Inr s) \<Rightarrow> k s)"

text \<open>\<^verbatim>\<open>while not self.spi.try_lock(): pass\<close>\<close>

partial_function (option) spi_lock :: "(nat \<Rightarrow> bool) \<Rightarrow> nat \<Rightarrow> unit option" where
  "spi_lock try_lock i = (if try_lock i then Some () else spi_lock try_lock (Suc i))"

definition default_secrets :: secrets where
  "default_secrets =
     \<lparr>s_debug_on = Some True, s_i2c_frequency = Some 0, s_spi_frequency = Some 0,
      s_use_wifi = Some False, s_use_mqtt = Some False, s_others = True\<rparr>"

text \<open>The assignments \<^verbatim>\<open>self.debug_on = secrets["debug_on"]\<close> and those after it, in
  the order of the source: a missing key raises \<^verbatim>\<open>KeyError\<close>, and the assignments made
  before it stay.\<close>

definition read_secrets :: "secrets \<Rightarrow> 'u sys \<Rightarrow> 'u outcome" where
  "read_secrets c s =
     (case s_debug_on c of
        None \<Rightarrow> Inl (KeyError, s)
      | Some v1 \<Rightarrow>
     (let s1 = ((fst s)\<lparr>debug_on := v1\<rparr>, snd s) in
      case s_i2c_frequency c of
        None \<Rightarrow> Inl (KeyError, s1)
      | Some v2 \<Rightarrow>
     (let s2 = ((fst s1)\<lparr>i2c_frequency := v2\<rparr>, snd s1) in
      case s_spi_frequency c of
        None \<Rightarrow> Inl (KeyError, s2)
      | Some v3 \<Rightarrow>
     (let s3 = ((fst s2)\<lparr>spi_frequency := v3\<rparr>, snd s2) in
      case s_use_wifi c of
        None \<Rightarrow> Inl (KeyError, s3)
      | Some v4 \<Rightarrow>
     (let s4 = ((fst s3)\<lparr>use_wifi := v4\<rparr>, snd s3) in
      case s_use_mqtt c of
        None \<Rightarrow> Inl (KeyError, s4)
      | Some v5 \<Rightarrow>
     (let s5 = ((fst s4)\<lparr>use_mqtt := v5\<rparr>, snd s4) in
      if s_others c then Inr s5 else Inl (KeyError, s5)))))))"

text \<open>\<^verbatim>\<open>startup\<close>, from its last fallible call on: \<^verbatim>\<open>rtc.RTC()\<close>, then the four
  assignments that end the method.\<close>

definition startup_rtc :: "platform \<Rightarrow> 'u sys \<Rightarrow> 'u outcome" where
  "startup_rtc p s =
     (case rtc_open p of
        Some ex \<Rightarrow> Inl (ex, s)
      | None \<Rightarrow>
          (let s1 = set_run_state NOT_STARTED
                      ((fst s)\<lparr>app_rtc := True, finished := False, exit_code := 0\<rparr>, snd s)
           in Inr ((fst s1)\<lparr>timers := []\<rparr>, snd s1)))"

text \<open>\<^verbatim>\<open>startup\<close>, from the SPI bus on.\<close>

definition startup_spi :: "platform \<Rightarrow> 'u sys \<Rightarrow> 'u outcome option" where
  "startup_spi p s =
     (case spi_open p of
        Some ex \<Rightarrow> Some (Inl (ex, s))
      | None \<Rightarrow>
          (let s1 = ((fst s)\<lparr>spi := True\<rparr>, snd s)
           in if spi_frequency (fst s1) > 0 then
                (case spi_lock (spi_try_lock p) 0 of
                   None \<Rightarrow> None
                 | Some _ \<Rightarrow>
                     (case spi_configure p (spi_frequency (fst s1)) of
                        Some ex \<Rightarrow> Some (Inl (ex, s1))
                      | None \<Rightarrow> Some (startup_rtc p s1)))
              else Some (startup_rtc p s1)))"

definition startup :: "platform \<Rightarrow> 'u sys \<Rightarrow> 'u outcome option" where
  "startup p s =
     (case secrets_module p of
        Inl ex \<Rightarrow> Some (Inl (ex, s))
      | Inr m \<Rightarrow>
          (case read_secrets (case m of None \<Rightarrow> default_secrets | Some c \<Rightarrow> c) s of
             Inl e \<Rightarrow> Some (Inl e)
           | Inr s1 \<Rightarrow>
               (case i2c_open p (if i2c_frequency (fst s1) > 0
                                 then Some (i2c_frequency (fst s1)) else None) of
                  Some ex \<Rightarrow> Some (Inl (ex, s1))
                | None \<Rightarrow> startup_spi p ((fst s1)\<lparr>i2c := True\<rparr>, snd s1))))"

text \<open>The loop of \<^verbatim>\<open>run\<close>: \<^verbatim>\<open>while not self.finished: self.update_timers();
  self.loop()\<close>.\<close>

partial_function (option) looping ::
  "(nat \<Rightarrow> nat \<Rightarrow> int option \<Rightarrow> 'u hook) \<Rightarrow> 'u hook \<Rightarrow> 'u sys \<Rightarrow> 'u outcome option" where
  "looping cbs lp s =
     (if finished (fst s) then Some (Inr s)
      else
        (case update_timers cbs (log_event Call_update_timers s) of
           Inl e \<Rightarrow> Some (Inl e)
         | Inr s1 \<Rightarrow>
             (case invoke Call_loop lp s1 of
                Inl e \<Rightarrow> Some (Inl e)
              | Inr s2 \<Rightarrow> looping cbs lp s2)))"

text \<open>The \<^verbatim>\<open>try\<close> block of \<^verbatim>\<open>run\<close> in three parts: up to the assignment of
  \<^verbatim>\<open>LOOPING\<close>, the loop, and from the assignment of \<^verbatim>\<open>DEINITIALISING\<close> on.\<close>

definition before_loop :: "platform \<Rightarrow> 'u hooks \<Rightarrow> 'u sys \<Rightarrow> 'u outcome option" where
  "before_loop p h s =
     and_then (startup p (log_event Call_startup (set_run_state STARTING s)))
       (\<lambda>s1. and_then (Some (invoke Call_init (init h) (set_run_state INITIALISING s1)))
          (\<lambda>s2. Some (Inr (set_run_state LOOPING s2))))"

definition after_loop :: "'u hooks \<Rightarrow> 'u sys \<Rightarrow> 'u outcome option" where
  "after_loop h s =
     and_then (Some (invoke Call_deinit (deinit h) (set_run_state DEINITIALISING s)))
       (\<lambda>s1. Some (invoke Call_shutdown (shutdown h) (set_run_state SHUTTING_DOWN s1)))"

definition try_block :: "platform \<Rightarrow> 'u hooks \<Rightarrow> 'u sys \<Rightarrow> 'u outcome option" where
  "try_block p h s =
     and_then (before_loop p h s)
       (\<lambda>s1. and_then (looping (callbacks h) (loop h) s1) (after_loop h))"

text \<open>The \<^verbatim>\<open>except Exception as ex\<close> clause of \<^verbatim>\<open>run\<close>. An exception of the
  \<^verbatim>\<open>deinit\<close> it calls leaves \<^verbatim>\<open>run\<close>.\<close>

definition on_exception :: "'u hooks \<Rightarrow> fault \<Rightarrow> 'u sys \<Rightarrow> 'u outcome" where
  "on_exception h ex s =
     (let s1 = ((fst s)\<lparr>exit_code := run_state (fst s)\<rparr>, snd s)
      in if run_state (fst s1) < SHUTTING_DOWN then invoke Call_deinit (deinit h) s1
         else Inr s1)"

text \<open>\<^verbatim>\<open>run\<close>: \<open>Some (Inr s)\<close> is a normal return, \<open>Some (Inl (ex, s))\<close> an exception that
  reaches the caller, \<open>None\<close> no return.\<close>

definition run :: "platform \<Rightarrow> 'u hooks \<Rightarrow> 'u sys \<Rightarrow> 'u outcome option" where
  "run p h s =
     (case try_block p h s of
        None \<Rightarrow> None
      | Some (Inr s') \<Rightarrow> Some (Inr s')
      | Some (Inl (ex, s')) \<Rightarrow> Some (on_exception h ex s'))"

subsection \<open>Observing a run\<close>

definition world_of :: "'u outcome \<Rightarrow> 'u world" where
  "world_of r = (case r of Inl (ex, s) \<Rightarrow> fst s | Inr s \<Rightarrow> fst s)"

definition trace_of :: "'u outcome \<Rightarrow> event list" where
  "trace_of r = (case r of Inl (ex, s) \<Rightarrow> snd s | Inr s \<Rightarrow> snd s)"

text \<open>The value of a number that is not an infinity, and the value of the accumulator of
  the timer at reference \<open>r\<close>.\<close>

definition amount :: "number \<Rightarrow> int option" where
  "amount n =
     (case n of
        PyInt a \<Rightarrow> Some a
      | PyFloat (Finite a) \<Rightarrow> Some a
      | PyFloat PosInf \<Rightarrow> None
      | PyFloat NegInf \<Rightarrow> None)"

definition accumulated :: "'u world \<Rightarrow> nat \<Rightarrow> int option" where
  "accumulated w r = (case heap w r of None \<Rightarrow> None | Some t \<Rightarrow> amount (duration t))"

text \<open>The events that a round of the loop can record: a pass over the timers, fires,
  the \<^verbatim>\<open>loop\<close> hook.\<close>

definition round_events :: "event list \<Rightarrow> bool" where
  "round_events es = (set es \<subseteq> insert Call_update_timers (insert Call_loop (range Fired)))"

text \<open>\<open>rounds n\<close> is the body of the loop of \<^verbatim>\<open>run\<close> executed \<open>n\<close> times in a row,
  whatever the flag \<^verbatim>\<open>finished\<close> says: the yardstick against which the loop is
  measured.\<close>

fun rounds ::
  "nat \<Rightarrow> (nat \<Rightarrow> nat \<Rightarrow> int option \<Rightarrow> 'u hook) \<Rightarrow> 'u hook \<Rightarrow> 'u sys \<Rightarrow> 'u outcome" where
  "rounds 0 cbs lp s = Inr s"
| "rounds (Suc n) cbs lp s =
     (case update_timers cbs (log_event Call_update_timers s) of
        Inl e \<Rightarrow> Inl e
      | Inr s1 \<Rightarrow>
          (case invoke Call_loop lp s1 of
             Inl e \<Rightarrow> Inl e
           | Inr s2 \<Rightarrow> rounds n cbs lp s2))"

subsection \<open>Scenarios\<close>

text \<open>The object as \<^verbatim>\<open>__init__\<close> leaves it (\<open>False\<close>, \<open>0\<close> and \<open>[]\<close> stand for its
  \<^verbatim>\<open>None\<close>), a board on which every call of \<^verbatim>\<open>startup\<close> succeeds (and no
  \<^verbatim>\<open>secrets\<close> module), the object as \<^verbatim>\<open>startup\<close> leaves it on that board, with
  \<^verbatim>\<open>self.timers = {}\<close>, and the hooks of the base class.\<close>

definition FeatherS2_new :: "'u \<Rightarrow> 'u world" where
  "FeatherS2_new u =
     \<lparr>debug_on = False, i2c_frequency = 0, spi_frequency = 0, use_wifi = False,
      use_mqtt = False, i2c = False, spi = False, app_rtc = False, finished = False,
      exit_code = 0, run_state = 0, timers = [], name_counter = 0, heap = Map.empty,
      next_ref = 0, clock = 0, rtc_datetime = (\<lambda>_. 0), user = u\<rparr>"

definition board_ok :: platform where
  "board_ok =
     \<lparr>secrets_module = Inr None, i2c_open = (\<lambda>_. None), spi_open = None,
      spi_try_lock = (\<lambda>_. True), spi_configure = (\<lambda>_. None), rtc_open = None\<rparr>"

definition after_startup :: "'u \<Rightarrow> 'u world" where
  "after_startup u =
     (FeatherS2_new u)\<lparr>debug_on := True, i2c := True, spi := True, app_rtc := True,
                        finished := False, exit_code := 0, run_state := NOT_STARTED,
                        timers := []\<rparr>"

definition base_hooks :: "'u hooks" where
  "base_hooks =
     \<lparr>init = Inr, loop = Inr, deinit = Inr, shutdown = Inr, callbacks = (\<lambda>_ _ _. Inr)\<rparr>"

text \<open>A callback that increments a counter and takes no time; a simulated clock that the
  test advances by \<open>dt\<close> before each call of \<^verbatim>\<open>update\<close>.\<close>

definition counting :: "nat \<Rightarrow> nat \<Rightarrow> int option \<Rightarrow> nat hook" where
  "counting c src at w = Inr (w\<lparr>user := user w + 1\<rparr>)"

definition advance :: "int \<Rightarrow> 'u sys \<Rightarrow> 'u sys" where
  "advance dt s = ((fst s)\<lparr>clock := clock (fst s) + dt\<rparr>, snd s)"

fun drive ::
  "(nat \<Rightarrow> nat \<Rightarrow> int option \<Rightarrow> 'u hook) \<Rightarrow> nat \<Rightarrow> int list \<Rightarrow> 'u sys \<Rightarrow> 'u outcome" where
  "drive cbs r [] s = Inr s"
| "drive cbs r (dt # dts) s =
     (case update cbs r (advance dt s) of Inl e \<Rightarrow> Inl e | Inr s' \<Rightarrow> drive cbs r dts s')"

text \<open>One timer of period \<open>p\<close> milliseconds, registered without a name and started.\<close>

definition one_timer :: "int \<Rightarrow> nat sys" where
  "one_timer p = (start 0 (snd (add_timer p 0 None None (after_startup 0))), [])"

text \<open>The timer that \<^verbatim>\<open>MainApp.init\<close> registers and starts, and an application that
  has already registered a timer under the explicit name \<^verbatim>\<open>Timer-0\<close>.\<close>

definition tick_app :: "nat world" where
  "tick_app =
     start_all_timers (snd (add_timer 5000 0 (Some ''Tick_Timer'') None (after_startup 0)))"

definition named_like_auto :: "nat world" where
  "named_like_auto = snd (add_timer 1000 7 (Some ''Timer-0'') None (after_startup 0))"

text \<open>The state in which the fourth call of the scenario finds the timer: three calls
  300 ms apart have been made, and the clock has moved on by another 300 ms.\<close>

definition fourth_call :: "nat sys" where
  "fourth_call =
     advance 300000000
       (world_of (drive counting 0 [300000000, 300000000, 300000000] (one_timer 1000)), [])"


text \<open>A board whose \<^verbatim>\<open>busio.I2C\<close> constructor raises, and applications whose
  \<^verbatim>\<open>loop\<close> hook raises, or calls \<^verbatim>\<open>finish\<close> in its third call (it counts its calls
  in \<open>user\<close>, as \<^verbatim>\<open>MainApp.loop\<close> counts frames).\<close>

definition board_no_i2c :: platform where
  "board_no_i2c = board_ok\<lparr>i2c_open := (\<lambda>_. Some (Fault ''No pull up found on SDA or SCL''))\<rparr>"

text \<open>An application whose \<^verbatim>\<open>deinit\<close> leaves a mark in \<open>user\<close>.\<close>

definition marking_deinit :: "nat hooks" where
  "marking_deinit = base_hooks\<lparr>deinit := (\<lambda>w. Inr (w\<lparr>user := 7\<rparr>))\<rparr>"

definition failing_loop :: "nat hooks" where
  "failing_loop = base_hooks\<lparr>loop := (\<lambda>w. Inl (Fault ''loop failed'', w))\<rparr>"

definition three_frames :: "nat hooks" where
  "three_frames =
     base_hooks\<lparr>loop := (\<lambda>w. Inr (if user w + 1 = 3 then finish (w\<lparr>user := user w + 1\<rparr>)
                                  else w\<lparr>user := user w + 1\<rparr>))\<rparr>"

text \<open>An application whose \<^verbatim>\<open>init\<close> registers and starts a timer of 5000 ms, as
  \<^verbatim>\<open>MainApp.init\<close> does, and then takes five seconds; the callback of the timer
  raises.\<close>

definition failing_callback :: "nat hooks" where
  "failing_callback =
     base_hooks
       \<lparr>init := (\<lambda>w. Inr ((start_all_timers
                              (snd (add_timer 5000 0 (Some ''Tick_Timer'') None w)))
                           \<lparr>clock := clock w + 5000000000\<rparr>)),
        callbacks := (\<lambda>c src at w. Inl (Fault ''callback failed'', w))\<rparr>"

text \<open>The values assigned to \<^verbatim>\<open>run_state\<close>, in order.\<close>

fun run_states :: "event list \<Rightarrow> int list" where
  "run_states [] = []"
| "run_states (Set_run_state v # es) = v # run_states es"
| "run_states (e # es) = run_states es"

text \<open>An application that calls \<^verbatim>\<open>finish\<close> in its first \<^verbatim>\<open>loop\<close> and whose
  \<^verbatim>\<open>deinit\<close> raises the first time it is called (it notes the attempt in \<open>user\<close>) and
  returns the second time.\<close>

definition flaky_deinit :: "nat hooks" where
  "flaky_deinit =
     base_hooks\<lparr>loop := (\<lambda>w. Inr (finish w)),
                deinit := (\<lambda>w. if user w = 0 then Inl (Fault ''publish failed'', w\<lparr>user := 1\<rparr>)
                                else Inr w)\<rparr>"

text \<open>An application that calls \<^verbatim>\<open>finish\<close> in its first \<^verbatim>\<open>loop\<close> and overrides
  \<^verbatim>\<open>shutdown\<close> with a method that raises.\<close>

definition failing_shutdown :: "nat hooks" where
  "failing_shutdown =
     base_hooks\<lparr>loop := (\<lambda>w. Inr (finish w)),
                shutdown := (\<lambda>w. Inl (Fault ''shutdown failed'', w))\<rparr>"

text \<open>The application of three frames with a call of \<^verbatim>\<open>finish\<close> in its \<^verbatim>\<open>init\<close>.\<close>

definition finish_in_init :: "nat hooks" where
  "finish_in_init = three_frames\<lparr>init := (\<lambda>w. Inr (finish w))\<rparr>"

section \<open>Properties\<close>

subsection \<open>Registration of timers\<close>

lemma dict_set_lookup: "map_of (dict_set d k v) k = Some v"
  by (induction d) auto

lemma dict_set_keys: "dict_has d k \<Longrightarrow> map fst (dict_set d k v) = map fst d"
  by (induction d) (force simp: dict_has_def)+

lemma tick_app_eq:
  "tick_app =
     (after_startup 0)
       \<lparr>timers := [(''Tick_Timer'', 0)],
        heap := [0 \<mapsto> \<lparr>name = ''Tick_Timer'', period = 5000, callback = 0, rtc = None,
                        trigger_count = 0, running = True, paused = False,
                        duration = PyFloat (Finite 0),
                        before_ns = 0\<rparr>],
        next_ref := 1\<rparr>"
  by (simp add: tick_app_def start_all_timers_def start_def reset_def on_timer_def
      add_timer_def Timer_init_def truthy_def dict_has_def after_startup_def FeatherS2_new_def
      monotonic_ns_def Let_def)

lemma named_like_auto_eq:
  "named_like_auto =
     (after_startup 0)
       \<lparr>timers := [(''Timer-0'', 0)],
        heap := [0 \<mapsto> \<lparr>name = ''Timer-0'', period = 1000, callback = 7, rtc = None,
                        trigger_count = 0, running = False, paused = False,
                        duration = PyFloat (Finite 0),
                        before_ns = 0\<rparr>],
        next_ref := 1\<rparr>"
  by (simp add: named_like_auto_def add_timer_def Timer_init_def truthy_def dict_has_def
      after_startup_def FeatherS2_new_def Let_def)

text \<open>
  C7. When the timer collection already holds a timer under the name \<open>nm\<close>, registering
  with the explicit (non-empty) name \<open>nm\<close> returns \<^verbatim>\<open>None\<close>, raises nothing, and leaves
  the whole state as it was: the dictionary, the stored timer object with its period,
  callback, accumulator, flags and trigger count, and the name counter.
\<close>

theorem add_timer_name_taken:
  "nm \<noteq> [] \<Longrightarrow> has_timer nm w \<Longrightarrow> add_timer p cb (Some nm) clk w = (None, w)"
  by (simp add: add_timer_def truthy_def has_timer_def)

theorem add_timer_name_taken_witness:
  "''Tick_Timer'' \<noteq> [] \<and> has_timer ''Tick_Timer'' tick_app
   \<and> add_timer 20 1 (Some ''Tick_Timer'') None tick_app = (None, tick_app)
   \<and> map_option period (heap tick_app 0) = Some 5000"
proof -
  have taken: "has_timer ''Tick_Timer'' tick_app"
    by (simp add: tick_app_eq has_timer_def dict_has_def after_startup_def FeatherS2_new_def)
  have "add_timer 20 1 (Some ''Tick_Timer'') None tick_app = (None, tick_app)"
    using add_timer_name_taken [of "''Tick_Timer''" tick_app 20 1 None] taken by simp
  moreover have "map_option period (heap tick_app 0) = Some 5000"
    by (simp add: tick_app_eq)
  ultimately show ?thesis using taken by simp
qed

text \<open>
  C10. Registering with the name omitted, or with a name that Python takes for false
  (\<^verbatim>\<open>None\<close>, the empty string), never returns \<^verbatim>\<open>None\<close>: no collision check is made,
  a new timer object is created and stored under the generated name
  \<^verbatim>\<open>Timer-<counter>\<close>, and the counter advances. Looking that name up afterwards gives
  the new object; when the name was already a key, its old entry is replaced and the set of
  keys stays as it was.
\<close>

theorem add_timer_unnamed:
  "\<not> truthy nm \<Longrightarrow>
     add_timer p cb nm clk w =
       (Some (next_ref w),
        w\<lparr>name_counter := name_counter w + 1,
          heap := (heap w)(next_ref w \<mapsto>
            \<lparr>name = ''Timer-'' @ str_nat (name_counter w), period = p, callback = cb,
             rtc = clk, trigger_count = 0, running = False, paused = False,
             duration = PyFloat (Finite 0), before_ns = 0\<rparr>),
          next_ref := next_ref w + 1,
          timers := dict_set (timers w) (''Timer-'' @ str_nat (name_counter w)) (next_ref w)\<rparr>)
     \<and> get_timer (''Timer-'' @ str_nat (name_counter w)) (snd (add_timer p cb nm clk w))
         = Some (next_ref w)
     \<and> (has_timer (''Timer-'' @ str_nat (name_counter w)) w \<longrightarrow>
          map fst (timers (snd (add_timer p cb nm clk w))) = map fst (timers w))"
proof -
  assume falsy: "\<not> truthy nm"
  let ?k = "''Timer-'' @ str_nat (name_counter w)"
  have eq: "add_timer p cb nm clk w =
       (Some (next_ref w),
        w\<lparr>name_counter := name_counter w + 1,
          heap := (heap w)(next_ref w \<mapsto>
            \<lparr>name = ?k, period = p, callback = cb,
             rtc = clk, trigger_count = 0, running = False, paused = False,
             duration = PyFloat (Finite 0), before_ns = 0\<rparr>),
          next_ref := next_ref w + 1,
          timers := dict_set (timers w) ?k (next_ref w)\<rparr>)"
    using falsy by (simp add: add_timer_def Timer_init_def Let_def)
  have found: "map_of (dict_set (timers w) ?k (next_ref w)) ?k = Some (next_ref w)"
    by (rule dict_set_lookup)
  then have key: "dict_has (dict_set (timers w) ?k (next_ref w)) ?k"
    by (metis dict_has_def map_of_eq_None_iff option.distinct(1) set_map)
  have "get_timer ?k (snd (add_timer p cb nm clk w)) = Some (next_ref w)"
    using found key by (simp add: eq get_timer_def has_timer_def)
  moreover have "has_timer ?k w \<longrightarrow>
      map fst (timers (snd (add_timer p cb nm clk w))) = map fst (timers w)"
    by (simp add: eq has_timer_def dict_set_keys)
  ultimately show ?thesis using eq by simp
qed

theorem add_timer_unnamed_witness:
  "\<not> truthy None \<and> has_timer ''Timer-0'' named_like_auto
   \<and> get_timer ''Timer-0'' named_like_auto = Some 0
   \<and> fst (add_timer 5000 8 None None named_like_auto) = Some 1
   \<and> get_timer ''Timer-0'' (snd (add_timer 5000 8 None None named_like_auto)) = Some 1
   \<and> map fst (timers (snd (add_timer 5000 8 None None named_like_auto))) = [''Timer-0'']"
proof -
  have falsy: "\<not> truthy None"
    by (simp add: truthy_def)
  have facts: "name_counter named_like_auto = 0" "next_ref named_like_auto = 1"
    "timers named_like_auto = [(''Timer-0'', 0)]"
    by (simp_all add: named_like_auto_eq after_startup_def FeatherS2_new_def)
  have auto_name: "str_nat 0 = ''0''"
    by (simp add: str_nat.simps)
  have taken: "has_timer ''Timer-0'' named_like_auto"
    by (simp add: has_timer_def dict_has_def facts)
  have old: "get_timer ''Timer-0'' named_like_auto = Some 0"
    by (simp add: get_timer_def has_timer_def dict_has_def facts)
  note unnamed = add_timer_unnamed [OF falsy, of 5000 8 None named_like_auto]
  have returned: "fst (add_timer 5000 8 None None named_like_auto) = Some 1"
    using unnamed [THEN conjunct1] by (simp add: facts)
  have replaced:
    "get_timer ''Timer-0'' (snd (add_timer 5000 8 None None named_like_auto)) = Some 1"
    using unnamed [THEN conjunct2, THEN conjunct1] by (simp add: facts auto_name)
  have keys: "map fst (timers (snd (add_timer 5000 8 None None named_like_auto))) = [''Timer-0'']"
    using unnamed [THEN conjunct2, THEN conjunct2] taken by (simp add: facts auto_name)
  show ?thesis
    using falsy taken old returned replaced keys by simp
qed

subsection \<open>Float arithmetic below \<open>2 ^ 53\<close>\<close>

lemma bit_length_le: "n < 2 ^ k \<Longrightarrow> bit_length n \<le> k"
proof (induction k arbitrary: n)
  case 0
  then show ?case by (simp add: bit_length.simps)
next
  case (Suc k)
  show ?case
  proof (cases "n \<le> 0")
    case True
    then show ?thesis by (simp add: bit_length.simps)
  next
    case False
    have "n div 2 < 2 ^ k"
      using Suc.prems by simp
    then have "bit_length (n div 2) \<le> k"
      by (rule Suc.IH)
    then show ?thesis
      using False by (subst bit_length.simps) simp
  qed
qed

text \<open>An integer of at most 53 bits is a double, and sums that stay in that range are
  exact.\<close>

lemma round_double_exact: "\<bar>k\<bar> < 2 ^ 53 \<Longrightarrow> round_double k = k"
proof -
  assume "\<bar>k\<bar> < 2 ^ 53"
  then have "bit_length \<bar>k\<bar> \<le> 53"
    by (rule bit_length_le)
  then show ?thesis
    by (simp add: round_double_def Let_def)
qed

lemma in_range:
  "\<bar>k::int\<bar> < 2 ^ 53 \<Longrightarrow>
     \<not> 2 ^ 1024 \<le> \<bar>k\<bar> \<and> \<not> 2 ^ 1024 \<le> k \<and> \<not> k \<le> - (2 ^ 1024)"
proof -
  assume small: "\<bar>k\<bar> < 2 ^ 53"
  have "(2::int) ^ 53 \<le> 2 ^ 1024"
    by (rule power_increasing) simp_all
  then show ?thesis
    using small by linarith
qed

lemma float_of_int_exact: "\<bar>k\<bar> < 2 ^ 53 \<Longrightarrow> float_of_int k = Inr k"
  using in_range [of k] by (simp add: float_of_int_def round_double_exact)

lemma float_plus_exact: "\<bar>a + v\<bar> < 2 ^ 53 \<Longrightarrow> float_plus (Finite a) v = Finite (a + v)"
  using in_range [of "a + v"] by (simp add: float_plus_def Let_def round_double_exact)

lemma plus_int_exact:
  "plus_int (PyInt a) k = Inr (PyInt (a + k))"
  "\<bar>k\<bar> < 2 ^ 53 \<Longrightarrow> \<bar>a + k\<bar> < 2 ^ 53 \<Longrightarrow>
     plus_int (PyFloat (Finite a)) k = Inr (PyFloat (Finite (a + k)))"
  by (simp_all add: plus_int_def float_of_int_exact float_plus_exact)

lemma at_least_simps:
  "at_least (PyInt a) k = (k \<le> a)"
  "at_least (PyFloat (Finite a)) k = (k \<le> a)"
  by (simp_all add: at_least_def)

lemma amount_simps:
  "amount (PyInt a) = Some a"
  "amount (PyFloat (Finite a)) = Some a"
  by (simp_all add: amount_def)


text \<open>Above \<open>2 ^ 53\<close> the doubles are the even integers: \<open>9007199254999999\<close> is half-way
  between two of them and goes to the one whose last mantissa bit is 0.\<close>

lemma bit_length_late:
  "bit_length 9007199254999999 = 54"
  "bit_length 9007199255000000 = 54"
  by (simp_all add: bit_length.simps)

lemma round_double_late:
  "round_double 9007199254999999 = 9007199255000000"
  "round_double 9007199255000000 = 9007199255000000"
  by (simp_all add: round_double_def Let_def bit_length_late)

subsection \<open>Timer.update\<close>

lemma one_timer_eq:
  "one_timer p =
     ((after_startup 0)
        \<lparr>timers := [(''Timer-0'', 0)], name_counter := 1,
         heap := [0 \<mapsto> \<lparr>name = ''Timer-0'', period = p, callback = 0, rtc = None,
                         trigger_count = 0, running = True, paused = False,
                         duration = PyFloat (Finite 0), before_ns = 0\<rparr>],
         next_ref := 1\<rparr>, [])"
  by (simp add: one_timer_def start_def reset_def on_timer_def add_timer_def Timer_init_def
      truthy_def after_startup_def FeatherS2_new_def monotonic_ns_def Let_def str_nat.simps)

lemmas scenario_defs =
  one_timer_eq after_startup_def FeatherS2_new_def advance_def update_def monotonic_ns_def
  on_timer_def counting_def world_of_def accumulated_def plus_int_exact at_least_simps
  amount_simps Let_def

lemma fourth_call_eq:
  "fourth_call =
     ((after_startup 0)
        \<lparr>timers := [(''Timer-0'', 0)], name_counter := 1,
         heap := [0 \<mapsto> \<lparr>name = ''Timer-0'', period = 1000, callback = 0, rtc = None,
                         trigger_count = 0, running = True, paused = False,
                         duration = PyFloat (Finite 900000000), before_ns = 900000000\<rparr>],
         next_ref := 1, clock := 1200000000\<rparr>, [])"
  by (simp add: fourth_call_def scenario_defs)


text \<open>
  C1, as the code has it. When \<^verbatim>\<open>update\<close> of a running, unpaused timer fires the
  callback (the sum \<open>d\<close> of the accumulator and the time since the baseline has reached
  the period) and the callback returns, the accumulator afterwards is the integer number
  of nanoseconds that passed between the clock reading at the start of \<^verbatim>\<open>update\<close> and
  the reading taken after the callback (the time the callback took): the time accumulated
  before, and with it the overshoot past the period, is discarded. The trigger count grows
  by one and the baseline is the second reading.
\<close>

theorem update_fire_accumulator:
  assumes "heap w r = Some t" "running t" "\<not> paused t"
    and "plus_int (duration t) (clock w - before_ns t) = Inr d"
    and "at_least d (period t * 1000000)"
    and "cbs (callback t) r (case rtc t of None \<Rightarrow> None | Some c \<Rightarrow> Some (rtc_datetime w c))
           (w\<lparr>heap := (heap w)(r \<mapsto> t\<lparr>duration := d\<rparr>)\<rparr>)
         = Inr w2"
    and "heap w2 r = Some t2"
  shows "update cbs r (w, tr) =
     Inr (w2\<lparr>heap := (heap w2)(r \<mapsto> t2\<lparr>duration := PyInt (clock w2 - clock w),
                 trigger_count := trigger_count t2 + 1, before_ns := clock w2\<rparr>)\<rparr>,
          tr @ [Fired r])"
  using assms
  by (simp add: update_def Let_def monotonic_ns_def on_timer_def cong: option.case_cong)

text \<open>The fourth call of the scenario: 1200 ms have accumulated against a period of
  1000 ms, the callback fires, and the accumulator is 0 afterwards.\<close>

theorem update_fire_accumulator_witness:
  "heap (fst fourth_call) 0 =
     Some \<lparr>name = ''Timer-0'', period = 1000, callback = 0, rtc = None, trigger_count = 0,
           running = True, paused = False, duration = PyFloat (Finite 900000000),
           before_ns = 900000000\<rparr>
   \<and> plus_int (PyFloat (Finite 900000000)) (clock (fst fourth_call) - 900000000)
       = Inr (PyFloat (Finite 1200000000))
   \<and> at_least (PyFloat (Finite 1200000000)) (1000 * 1000000)
   \<and> accumulated (world_of (update counting 0 fourth_call)) 0 = Some 0
   \<and> map_option duration (heap (world_of (update counting 0 fourth_call)) 0) = Some (PyInt 0)
   \<and> map_option trigger_count (heap (world_of (update counting 0 fourth_call)) 0) = Some 1
   \<and> trace_of (update counting 0 fourth_call) = [Fired 0]"
proof -
  let ?t = "\<lparr>name = ''Timer-0'', period = 1000, callback = 0, rtc = None, trigger_count = 0,
           running = True, paused = False, duration = PyFloat (Finite 900000000),
           before_ns = 900000000\<rparr>"
  let ?w = "fst fourth_call"
  let ?d = "PyFloat (Finite 1200000000)"
  let ?t1 = "?t\<lparr>duration := ?d\<rparr>"
  let ?w2 = "?w\<lparr>heap := (heap ?w)(0 \<mapsto> ?t1), user := user ?w + 1\<rparr>"
  have stored: "heap ?w 0 = Some ?t"
    by (simp add: fourth_call_eq)
  have summed: "plus_int (duration ?t) (clock ?w - before_ns ?t) = Inr ?d"
    by (simp add: fourth_call_eq plus_int_exact)
  have due: "at_least ?d (period ?t * 1000000)"
    by (simp add: at_least_simps)
  have called: "counting (callback ?t) 0
      (case rtc ?t of None \<Rightarrow> None | Some c \<Rightarrow> Some (rtc_datetime ?w c))
      (?w\<lparr>heap := (heap ?w)(0 \<mapsto> ?t1)\<rparr>) = Inr ?w2"
    by (simp add: counting_def)
  have still: "heap ?w2 0 = Some ?t1"
    by simp
  have "update counting 0 (?w, []) =
     Inr (?w2\<lparr>heap := (heap ?w2)(0 \<mapsto> ?t1\<lparr>duration := PyInt (clock ?w2 - clock ?w),
                 trigger_count := trigger_count ?t1 + 1, before_ns := clock ?w2\<rparr>)\<rparr>,
          [] @ [Fired 0])"
    using update_fire_accumulator [of ?w 0 ?t ?d counting ?w2 ?t1 "[]"]
      stored summed due called still
    by simp
  moreover have "fourth_call = (?w, [])"
    by (simp add: fourth_call_eq)
  ultimately have "update counting 0 fourth_call =
     Inr (?w2\<lparr>heap := (heap ?w2)(0 \<mapsto> ?t1\<lparr>duration := PyInt (clock ?w2 - clock ?w),
                 trigger_count := trigger_count ?t1 + 1, before_ns := clock ?w2\<rparr>)\<rparr>,
          [] @ [Fired 0])"
    by simp
  then show ?thesis
    using stored summed due
    by (simp add: world_of_def trace_of_def accumulated_def amount_simps)
qed

text \<open>
  C1 as stated fails on its own scenario. Four calls 300 ms apart on a timer of period
  1000 ms: nothing fires in the first three, the fourth fires once, and the accumulator is
  then 0, not the 1200 ms elapsed minus the 1000 ms of the period.
\<close>

theorem overshoot_counterexample:
  "user (world_of (drive counting 0 [300000000, 300000000, 300000000] (one_timer 1000))) = 0
   \<and> user (world_of (drive counting 0 [300000000, 300000000, 300000000, 300000000]
                        (one_timer 1000))) = 1
   \<and> accumulated
        (world_of (drive counting 0 [300000000, 300000000, 300000000, 300000000]
                     (one_timer 1000))) 0 = Some 0
   \<and> accumulated
        (world_of (drive counting 0 [300000000, 300000000, 300000000, 300000000]
                     (one_timer 1000))) 0
       \<noteq> Some (sum_list [300000000, 300000000, 300000000, 300000000] - 1000 * 1000000)"
  by (simp add: scenario_defs)

subsection \<open>The long-run firing rate\<close>






text \<open>
  The bound on the elapsed time in the theorem above cannot be dropped. From
  \<^verbatim>\<open>reset\<close> to the first fire the accumulator is a float: with a period of
  \<open>9007199255\<close> ms, one call of \<^verbatim>\<open>update\<close> after \<open>9007199254999999\<close> ns, one
  nanosecond short of the period, adds the elapsed time to \<open>0.0\<close>, the sum is rounded up
  to the period, and the callback fires although no whole period has passed.
\<close>

lemma early_fire_beyond_exactness:
  "user (world_of (drive counting 0 [9007199254999999] (one_timer 9007199255))) = 1
   \<and> sum_list [9007199254999999] div (9007199255 * 1000000) = (0::int)"
  by (simp add: scenario_defs plus_int_def float_of_int_def float_plus_def at_least_def
      round_double_late)

subsection \<open>The life cycle: what each part does to the state and to the record\<close>

lemma and_then_simps:
  "and_then None k = None"
  "and_then (Some (Inl e)) k = Some (Inl e)"
  "and_then (Some (Inr s)) k = k s"
  by (simp_all add: and_then_def)

lemma trace_of_simps:
  "trace_of (Inl (ex, s)) = snd s"
  "trace_of (Inr s) = snd s"
  by (simp_all add: trace_of_def)

lemma world_of_simps:
  "world_of (Inl (ex, s)) = fst s"
  "world_of (Inr s) = fst s"
  by (simp_all add: world_of_def)

lemma trace_of_invoke: "trace_of (invoke e f s) = snd s @ [e]"
  by (simp add: invoke_def trace_of_def split: sum.splits prod.splits)

text \<open>An exception in \<^verbatim>\<open>startup\<close> is raised before the method reaches its assignment
  to \<^verbatim>\<open>run_state\<close>.\<close>

lemma startup_rtc_fault: "startup_rtc p s = Inl (ex, s') \<Longrightarrow> s' = s"
  by (auto simp: startup_rtc_def Let_def split: option.splits)

lemma startup_spi_fault:
  "startup_spi p s = Some (Inl (ex, s')) \<Longrightarrow>
     run_state (fst s') = run_state (fst s) \<and> snd s' = snd s"
  by (auto simp: startup_spi_def Let_def split: option.splits if_splits
      dest!: startup_rtc_fault)

lemma read_secrets_state:
  "read_secrets c s = Inl (ex, s') \<Longrightarrow>
     run_state (fst s') = run_state (fst s) \<and> snd s' = snd s"
  "read_secrets c s = Inr s' \<Longrightarrow>
     run_state (fst s') = run_state (fst s) \<and> snd s' = snd s"
  by (auto simp: read_secrets_def Let_def split: option.splits if_splits)

lemma startup_fault:
  "startup p s = Some (Inl (ex, s')) \<Longrightarrow>
     run_state (fst s') = run_state (fst s) \<and> snd s' = snd s"
  by (auto simp: startup_def split: sum.splits option.splits if_splits
      dest!: startup_spi_fault read_secrets_state)

text \<open>When \<^verbatim>\<open>startup\<close> returns, it has put the state back to \<^verbatim>\<open>NOT_STARTED\<close>.\<close>

lemma startup_rtc_ok:
  "startup_rtc p s = Inr s' \<Longrightarrow>
     run_state (fst s') = NOT_STARTED \<and> \<not> finished (fst s') \<and> exit_code (fst s') = 0
     \<and> timers (fst s') = [] \<and> snd s' = snd s @ [Set_run_state NOT_STARTED]"
  by (auto simp: startup_rtc_def Let_def set_run_state_def split: option.splits)

lemma startup_spi_ok:
  "startup_spi p s = Some (Inr s') \<Longrightarrow>
     run_state (fst s') = NOT_STARTED \<and> \<not> finished (fst s') \<and> exit_code (fst s') = 0
     \<and> timers (fst s') = [] \<and> snd s' = snd s @ [Set_run_state NOT_STARTED]"
  by (auto simp: startup_spi_def Let_def split: option.splits if_splits
      dest!: startup_rtc_ok)

lemma startup_ok:
  "startup p s = Some (Inr s') \<Longrightarrow>
     run_state (fst s') = NOT_STARTED \<and> \<not> finished (fst s') \<and> exit_code (fst s') = 0
     \<and> timers (fst s') = [] \<and> snd s' = snd s @ [Set_run_state NOT_STARTED]"
  by (auto simp: startup_def split: sum.splits option.splits if_splits
      dest!: startup_spi_ok read_secrets_state(2))

lemma startup_board_ok:
  "startup board_ok s =
     Some (Inr ((fst s)\<lparr>debug_on := True, i2c_frequency := 0, spi_frequency := 0,
                        use_wifi := False, use_mqtt := False, i2c := True, spi := True,
                        app_rtc := True, finished := False, exit_code := 0,
                        run_state := NOT_STARTED, timers := []\<rparr>,
                snd s @ [Set_run_state NOT_STARTED]))"
  by (simp add: startup_def read_secrets_def startup_spi_def startup_rtc_def board_ok_def
      default_secrets_def Let_def set_run_state_def)

text \<open>A pass over the timers adds nothing to the record but fires.\<close>

lemma update_trace:
  "trace_of (update cbs r s) = snd s \<or> trace_of (update cbs r s) = snd s @ [Fired r]"
  by (auto simp: update_def Let_def trace_of_def split: option.splits sum.splits prod.splits)

lemma update_each_trace:
  "\<exists>fs. trace_of (update_each cbs ks i n s) = snd s @ map Fired fs"
proof (induction n arbitrary: i s)
  case 0
  have "trace_of (update_each cbs ks i 0 s) = snd s @ map Fired []"
    by (simp add: trace_of_simps)
  then show ?case by blast
next
  case (Suc n)
  let ?r = "snd (timers (fst s) ! i)"
  show ?case
  proof (cases "map fst (timers (fst s)) = ks")
    case False
    then have "trace_of (update_each cbs ks i (Suc n) s) = snd s @ map Fired []"
      by (simp add: trace_of_simps)
    then show ?thesis by blast
  next
    case True
    show ?thesis
    proof (cases "update cbs ?r s")
      case (Inl e)
      obtain ex s' where e: "e = (ex, s')" by (cases e)
      have "snd s' = snd s \<or> snd s' = snd s @ [Fired ?r]"
        using update_trace [of cbs ?r s] Inl e by (simp add: trace_of_simps)
      then have "snd s' = snd s @ map Fired [] \<or> snd s' = snd s @ map Fired [?r]"
        by simp
      then have "\<exists>fs. snd s' = snd s @ map Fired fs"
        by blast
      then show ?thesis
        using True Inl e by (simp add: trace_of_simps)
    next
      case (Inr s')
      have "snd s' = snd s \<or> snd s' = snd s @ [Fired ?r]"
        using update_trace [of cbs ?r s] Inr by (simp add: trace_of_simps)
      moreover obtain fs where
        "trace_of (update_each cbs ks (Suc i) n s') = snd s' @ map Fired fs"
        using Suc.IH by blast
      ultimately have "trace_of (update_each cbs ks (Suc i) n s') = snd s @ map Fired fs
          \<or> trace_of (update_each cbs ks (Suc i) n s') = snd s @ map Fired (?r # fs)"
        by auto
      then have "\<exists>gs. trace_of (update_each cbs ks (Suc i) n s') = snd s @ map Fired gs"
        by blast
      then show ?thesis
        using True Inr by simp
    qed
  qed
qed

lemma update_timers_trace:
  "\<exists>fs. trace_of (update_timers cbs s) = snd s @ map Fired fs"
  unfolding update_timers_def by (rule update_each_trace)

lemma round_events_append: "round_events (es @ fs) = (round_events es \<and> round_events fs)"
  by (auto simp: round_events_def)

lemma round_events_basic:
  "round_events []" "round_events [Call_update_timers]" "round_events [Call_loop]"
  "round_events (map Fired fs)"
  by (auto simp: round_events_def)

lemma round_events_no_deinit: "round_events es \<Longrightarrow> count_list es Call_deinit = 0"
  by (rule count_notin) (auto simp: round_events_def)

lemma looping_trace:
  assumes "looping cbs lp s = Some y"
  shows "\<exists>es. trace_of y = snd s @ es \<and> round_events es"
  using assms
proof (induction rule: looping.raw_induct [rotated 1, consumes 1, case_names body])
  case (body again cbs lp s y)
  show ?case
  proof (cases "finished (fst s)")
    case True
    then have "trace_of y = snd s @ []"
      using body(2) by (auto simp: trace_of_simps)
    then show ?thesis using round_events_basic(1) by blast
  next
    case False
    obtain fs where
      fs: "trace_of (update_timers cbs (log_event Call_update_timers s))
             = (snd s @ [Call_update_timers]) @ map Fired fs"
      using update_timers_trace [of cbs "log_event Call_update_timers s"]
      by (auto simp: log_event_def)
    show ?thesis
    proof (cases "update_timers cbs (log_event Call_update_timers s)")
      case (Inl e)
      then have "trace_of y = snd s @ ([Call_update_timers] @ map Fired fs)"
        using body(2) False fs by auto
      then show ?thesis
        using round_events_basic round_events_append by blast
    next
      case (Inr s1)
      have s1: "snd s1 = snd s @ ([Call_update_timers] @ map Fired fs)"
        using fs Inr by (simp add: trace_of_simps)
      have s2: "trace_of (invoke Call_loop lp s1)
          = snd s @ ([Call_update_timers] @ map Fired fs @ [Call_loop])"
        using s1 by (simp add: trace_of_invoke)
      show ?thesis
      proof (cases "invoke Call_loop lp s1")
        case (Inl e)
        then have "trace_of y = snd s @ ([Call_update_timers] @ map Fired fs @ [Call_loop])"
          using body(2) False Inr s2 by auto
        then show ?thesis
          using round_events_basic round_events_append by blast
      next
        case (Inr s2')
        then have "again cbs lp s2' = Some y"
          using body(2) False \<open>update_timers cbs (log_event Call_update_timers s) = Inr s1\<close>
          by simp
        then obtain es where es: "trace_of y = snd s2' @ es" "round_events es"
          using body(1) by blast
        have "snd s2' = snd s @ ([Call_update_timers] @ map Fired fs @ [Call_loop])"
          using s2 Inr by (simp add: trace_of_simps)
        then have "trace_of y = snd s @ (([Call_update_timers] @ map Fired fs @ [Call_loop]) @ es)"
          using es(1) by simp
        moreover have "round_events (([Call_update_timers] @ map Fired fs @ [Call_loop]) @ es)"
          using es(2) round_events_basic round_events_append by blast
        ultimately show ?thesis by blast
      qed
    qed
  qed
qed


lemma before_loop_ok:
  assumes "before_loop p h s = Some (Inr s0)"
  shows "snd s0 = snd s @ [Set_run_state STARTING, Call_startup, Set_run_state NOT_STARTED,
                         Set_run_state INITIALISING, Call_init, Set_run_state LOOPING]
         \<and> run_state (fst s0) = LOOPING"
proof -
  let ?s1 = "log_event Call_startup (set_run_state STARTING s)"
  obtain s2 where started: "startup p ?s1 = Some (Inr s2)"
    using assms
    by (auto simp: before_loop_def and_then_def split: option.splits sum.splits)
  have s2: "snd s2 = snd s @ [Set_run_state STARTING, Call_startup, Set_run_state NOT_STARTED]"
    using startup_ok [OF started] by (simp add: log_event_def set_run_state_def)
  obtain s3 where inited: "invoke Call_init (init h) (set_run_state INITIALISING s2) = Inr s3"
    and s0: "s0 = set_run_state LOOPING s3"
    using assms started
    by (auto simp: before_loop_def and_then_def split: sum.splits)
  have "snd s3 = snd s2 @ [Set_run_state INITIALISING, Call_init]"
    using trace_of_invoke [of Call_init "init h" "set_run_state INITIALISING s2"] inited
    by (simp add: trace_of_simps set_run_state_def)
  then show ?thesis
    using s0 s2 by (simp add: set_run_state_def)
qed

subsection \<open>Faults\<close>

text \<open>
  C4. Whenever \<^verbatim>\<open>startup\<close>, called by \<^verbatim>\<open>run\<close> in state \<^verbatim>\<open>STARTING\<close>, raises an
  exception, the state is still \<^verbatim>\<open>STARTING\<close> at that point, \<^verbatim>\<open>run\<close> leaves the
  normal sequence (neither \<^verbatim>\<open>init\<close> nor the loop nor \<^verbatim>\<open>shutdown\<close> is reached), the
  exit code is set to the ordinal of \<^verbatim>\<open>STARTING\<close>, and the \<^verbatim>\<open>deinit\<close> hook is then
  invoked, once; what \<^verbatim>\<open>run\<close> yields is what that call yields.
\<close>

theorem setup_fault:
  assumes "startup p (log_event Call_startup (set_run_state STARTING (w, []))) = Some (Inl (ex, s'))"
  shows "run_state (fst s') = STARTING
     \<and> run p h (w, []) =
         Some (invoke Call_deinit (deinit h)
                 ((fst s')\<lparr>exit_code := STARTING\<rparr>, [Set_run_state STARTING, Call_startup]))
     \<and> map_option trace_of (run p h (w, []))
         = Some [Set_run_state STARTING, Call_startup, Call_deinit]"
proof -
  have at_fault: "run_state (fst s') = STARTING"
    "snd s' = [Set_run_state STARTING, Call_startup]"
    using startup_fault [OF assms] by (simp_all add: log_event_def set_run_state_def)
  have "try_block p h (w, []) = Some (Inl (ex, s'))"
    using assms by (simp add: try_block_def before_loop_def and_then_simps)
  then have "run p h (w, []) = Some (on_exception h ex s')"
    by (simp add: run_def)
  moreover have "on_exception h ex s' =
      invoke Call_deinit (deinit h)
        ((fst s')\<lparr>exit_code := STARTING\<rparr>, [Set_run_state STARTING, Call_startup])"
    using at_fault by (simp add: on_exception_def Let_def STARTING_def SHUTTING_DOWN_def)
  ultimately show ?thesis
    using at_fault(1) by (simp add: trace_of_invoke)
qed

text \<open>The I2C bus cannot be opened: \<^verbatim>\<open>run\<close> returns with exit code 2 after one call
  of \<^verbatim>\<open>deinit\<close>, whose mark is in the state returned.\<close>

theorem setup_fault_witness:
  "startup board_no_i2c
      (log_event Call_startup (set_run_state STARTING (FeatherS2_new (0::nat), [])))
     = Some (Inl (Fault ''No pull up found on SDA or SCL'',
                  ((FeatherS2_new 0)\<lparr>debug_on := True, run_state := STARTING\<rparr>,
                   [Set_run_state STARTING, Call_startup])))
   \<and> run board_no_i2c marking_deinit (FeatherS2_new 0, [])
       = Some (Inr ((FeatherS2_new 0)\<lparr>debug_on := True, run_state := STARTING,
                                        exit_code := STARTING, user := 7\<rparr>,
                    [Set_run_state STARTING, Call_startup, Call_deinit]))
   \<and> map_option (exit_code \<circ> world_of) (run board_no_i2c marking_deinit (FeatherS2_new 0, []))
       = Some STARTING
   \<and> map_option trace_of (run board_no_i2c marking_deinit (FeatherS2_new 0, []))
       = Some [Set_run_state STARTING, Call_startup, Call_deinit]"
proof -
  let ?s' = "((FeatherS2_new (0::nat))\<lparr>debug_on := True, run_state := STARTING\<rparr>,
              [Set_run_state STARTING, Call_startup])"
  have raised:
    "startup board_no_i2c
        (log_event Call_startup (set_run_state STARTING (FeatherS2_new (0::nat), [])))
       = Some (Inl (Fault ''No pull up found on SDA or SCL'', ?s'))"
    by (simp add: startup_def read_secrets_def board_no_i2c_def board_ok_def
        default_secrets_def Let_def log_event_def set_run_state_def FeatherS2_new_def)
  note fault = setup_fault [OF raised, of marking_deinit]
  have returned: "run board_no_i2c marking_deinit (FeatherS2_new 0, [])
       = Some (Inr ((FeatherS2_new 0)\<lparr>debug_on := True, run_state := STARTING,
                                        exit_code := STARTING, user := 7\<rparr>,
                    [Set_run_state STARTING, Call_startup, Call_deinit]))"
    using fault [THEN conjunct2, THEN conjunct1]
    by (simp add: invoke_def marking_deinit_def base_hooks_def)
  show ?thesis
    using raised returned fault [THEN conjunct2, THEN conjunct2]
    by (simp add: world_of_def)
qed

text \<open>
  C8. Whenever the loop of \<^verbatim>\<open>run\<close> ends in an exception (of a timer callback or of the
  \<^verbatim>\<open>loop\<close> hook) while the state is \<^verbatim>\<open>LOOPING\<close>, the exit code is set to the ordinal
  of \<^verbatim>\<open>LOOPING\<close> and the \<^verbatim>\<open>deinit\<close> hook is then invoked; what \<^verbatim>\<open>run\<close> yields is
  what that call yields, and it is the only call of \<^verbatim>\<open>deinit\<close> in the whole run.
\<close>

theorem loop_fault:
  assumes "before_loop p h (w, []) = Some (Inr s0)"
    and "looping (callbacks h) (loop h) s0 = Some (Inl (ex, s'))"
    and "run_state (fst s') = LOOPING"
  shows "run p h (w, []) =
           Some (invoke Call_deinit (deinit h) ((fst s')\<lparr>exit_code := LOOPING\<rparr>, snd s'))
     \<and> map_option (\<lambda>r. count_list (trace_of r) Call_deinit) (run p h (w, [])) = Some 1"
proof -
  have "try_block p h (w, []) = Some (Inl (ex, s'))"
    using assms(1,2) by (simp add: try_block_def and_then_simps)
  then have "run p h (w, []) = Some (on_exception h ex s')"
    by (simp add: run_def)
  moreover have "on_exception h ex s' =
      invoke Call_deinit (deinit h) ((fst s')\<lparr>exit_code := LOOPING\<rparr>, snd s')"
    using assms(3) by (simp add: on_exception_def Let_def LOOPING_def SHUTTING_DOWN_def)
  ultimately have yields: "run p h (w, []) =
      Some (invoke Call_deinit (deinit h) ((fst s')\<lparr>exit_code := LOOPING\<rparr>, snd s'))"
    by simp
  obtain es where es: "snd s' = snd s0 @ es" "round_events es"
    using looping_trace [OF assms(2)] by (auto simp: trace_of_simps)
  have "count_list (snd s0) Call_deinit = 0"
    using before_loop_ok [OF assms(1)] by simp
  then have "count_list (snd s') Call_deinit = 0"
    using es round_events_no_deinit by simp
  then show ?thesis
    using yields by (simp add: trace_of_invoke)
qed

text \<open>The \<^verbatim>\<open>loop\<close> hook raises in its first call: \<^verbatim>\<open>run\<close> returns with exit code 4
  after one call of \<^verbatim>\<open>deinit\<close>. The same when the callback of a timer raises in the
  first pass over the timers: the \<^verbatim>\<open>loop\<close> hook is not reached.\<close>

theorem loop_fault_witness:
  "before_loop board_ok failing_loop (FeatherS2_new 0, [])
     = Some (Inr ((FeatherS2_new 0)\<lparr>debug_on := True, i2c := True, spi := True,
                    app_rtc := True, run_state := LOOPING\<rparr>,
                  [Set_run_state STARTING, Call_startup, Set_run_state NOT_STARTED,
                   Set_run_state INITIALISING, Call_init, Set_run_state LOOPING]))
   \<and> map_option (exit_code \<circ> world_of) (run board_ok failing_loop (FeatherS2_new 0, []))
       = Some LOOPING
   \<and> map_option trace_of (run board_ok failing_loop (FeatherS2_new 0, []))
       = Some [Set_run_state STARTING, Call_startup, Set_run_state NOT_STARTED,
               Set_run_state INITIALISING, Call_init, Set_run_state LOOPING,
               Call_update_timers, Call_loop, Call_deinit]
   \<and> map_option (\<lambda>r. count_list (trace_of r) Call_deinit)
        (run board_ok failing_loop (FeatherS2_new 0, [])) = Some 1
   \<and> map_option (exit_code \<circ> world_of) (run board_ok failing_callback (FeatherS2_new 0, []))
       = Some LOOPING
   \<and> map_option trace_of (run board_ok failing_callback (FeatherS2_new 0, []))
       = Some [Set_run_state STARTING, Call_startup, Set_run_state NOT_STARTED,
               Set_run_state INITIALISING, Call_init, Set_run_state LOOPING,
               Call_update_timers, Fired 0, Call_deinit]"
proof -
  let ?w0 = "(FeatherS2_new (0::nat))\<lparr>debug_on := True, i2c := True, spi := True,
                app_rtc := True, run_state := LOOPING\<rparr>"
  let ?tr0 = "[Set_run_state STARTING, Call_startup, Set_run_state NOT_STARTED,
               Set_run_state INITIALISING, Call_init, Set_run_state LOOPING]"
  have entered: "before_loop board_ok failing_loop (FeatherS2_new 0, []) = Some (Inr (?w0, ?tr0))"
    by (simp add: before_loop_def startup_board_ok and_then_simps invoke_def failing_loop_def
        base_hooks_def log_event_def set_run_state_def FeatherS2_new_def)
  have raised: "looping (callbacks failing_loop) (loop failing_loop) (?w0, ?tr0)
      = Some (Inl (Fault ''loop failed'', (?w0, ?tr0 @ [Call_update_timers, Call_loop])))"
    by (subst looping.simps)
      (simp add: update_timers_def invoke_def failing_loop_def base_hooks_def log_event_def
        FeatherS2_new_def)
  have state: "run_state (fst (?w0, ?tr0 @ [Call_update_timers, Call_loop])) = LOOPING"
    by simp
  note fault = loop_fault [OF entered raised state]
  have yields: "run board_ok failing_loop (FeatherS2_new 0, [])
      = Some (Inr (?w0\<lparr>exit_code := LOOPING\<rparr>, ?tr0 @ [Call_update_timers, Call_loop, Call_deinit]))"
    using fault [THEN conjunct1] by (simp add: invoke_def failing_loop_def base_hooks_def)
  let ?t = "\<lparr>name = ''Tick_Timer'', period = 5000, callback = 0, rtc = None, trigger_count = 0,
            running = True, paused = False, duration = PyFloat (Finite 0), before_ns = 0\<rparr>"
  let ?wc = "?w0\<lparr>timers := [(''Tick_Timer'', 0)], heap := [0 \<mapsto> ?t], next_ref := 1,
               clock := 5000000000\<rparr>"
  let ?wf = "?wc\<lparr>heap := [0 \<mapsto> ?t\<lparr>duration := PyFloat (Finite 5000000000)\<rparr>]\<rparr>"
  have entered_c:
    "before_loop board_ok failing_callback (FeatherS2_new 0, []) = Some (Inr (?wc, ?tr0))"
    by (simp add: before_loop_def startup_board_ok and_then_simps invoke_def
        failing_callback_def base_hooks_def log_event_def set_run_state_def FeatherS2_new_def
        start_all_timers_def start_def reset_def on_timer_def add_timer_def Timer_init_def
        truthy_def dict_has_def monotonic_ns_def Let_def)
  have raised_c: "looping (callbacks failing_callback) (loop failing_callback) (?wc, ?tr0)
      = Some (Inl (Fault ''callback failed'', (?wf, ?tr0 @ [Call_update_timers, Fired 0])))"
    by (subst looping.simps)
      (simp add: update_timers_def update_def failing_callback_def base_hooks_def
        log_event_def monotonic_ns_def plus_int_exact at_least_simps Let_def
        FeatherS2_new_def)
  have state_c: "run_state (fst (?wf, ?tr0 @ [Call_update_timers, Fired 0])) = LOOPING"
    by simp
  note fault_c = loop_fault [OF entered_c raised_c state_c]
  have yields_c: "run board_ok failing_callback (FeatherS2_new 0, [])
      = Some (Inr (?wf\<lparr>exit_code := LOOPING\<rparr>, ?tr0 @ [Call_update_timers, Fired 0, Call_deinit]))"
    using fault_c [THEN conjunct1]
    by (simp add: invoke_def failing_callback_def base_hooks_def)
  show ?thesis
    using entered fault [THEN conjunct2]
    by (simp add: yields yields_c world_of_def trace_of_def)
qed

subsection \<open>The loop, round by round\<close>

lemma rounds_trace:
  "rounds n cbs lp s = Inr s' \<Longrightarrow>
     \<exists>es. snd s' = snd s @ es \<and> round_events es
          \<and> count_list es Call_update_timers = n \<and> count_list es Call_loop = n"
proof (induction n arbitrary: s)
  case 0
  then have "snd s' = snd s @ []" by simp
  then show ?case using round_events_basic(1) by fastforce
next
  case (Suc n)
  obtain s1 where s1: "update_timers cbs (log_event Call_update_timers s) = Inr s1"
    using Suc.prems by (auto split: sum.splits)
  obtain s2 where s2: "invoke Call_loop lp s1 = Inr s2"
    using Suc.prems s1 by (auto split: sum.splits)
  have rest: "rounds n cbs lp s2 = Inr s'"
    using Suc.prems s1 s2 by simp
  obtain fs where "snd s1 = (snd s @ [Call_update_timers]) @ map Fired fs"
    using update_timers_trace [of cbs "log_event Call_update_timers s"] s1
    by (auto simp: log_event_def trace_of_simps)
  moreover have "snd s2 = snd s1 @ [Call_loop]"
    using trace_of_invoke [of Call_loop lp s1] s2 by (simp add: trace_of_simps)
  ultimately have one: "snd s2 = snd s @ ([Call_update_timers] @ map Fired fs @ [Call_loop])"
    by simp
  obtain es where es: "snd s' = snd s2 @ es" "round_events es"
    "count_list es Call_update_timers = n" "count_list es Call_loop = n"
    using Suc.IH [OF rest] by blast
  let ?es = "([Call_update_timers] @ map Fired fs @ [Call_loop]) @ es"
  have fired: "count_list (map Fired fs) Call_update_timers = 0"
    "count_list (map Fired fs) Call_loop = 0"
    by (auto intro!: count_notin)
  have "snd s' = snd s @ ?es"
    using one es(1) by simp
  moreover have "round_events ?es"
    using es(2) round_events_basic round_events_append by blast
  moreover have "count_list ?es Call_update_timers = Suc n" "count_list ?es Call_loop = Suc n"
    using es(3,4) fired by simp_all
  ultimately show ?case by blast
qed

text \<open>If the flag is down at the first \<open>N\<close> tests of the loop condition and up after
  round \<open>N\<close>, the loop makes exactly the \<open>N\<close> rounds and returns.\<close>

lemma looping_unroll:
  assumes "\<forall>k<N. \<exists>sk. rounds k cbs lp s0 = Inr sk \<and> \<not> finished (fst sk)"
    and "rounds N cbs lp s0 = Inr sN"
    and "finished (fst sN)"
  shows "looping cbs lp s0 = Some (Inr sN)"
  using assms
proof (induction N arbitrary: s0)
  case 0
  then show ?case by (subst looping.simps) simp
next
  case (Suc N)
  have down: "\<not> finished (fst s0)"
    using Suc.prems(1) [rule_format, of 0] by simp
  obtain s1 where s1: "update_timers cbs (log_event Call_update_timers s0) = Inr s1"
    using Suc.prems(2) by (auto split: sum.splits)
  obtain s2 where s2: "invoke Call_loop lp s1 = Inr s2"
    using Suc.prems(2) s1 by (auto split: sum.splits)
  have rest: "rounds N cbs lp s2 = Inr sN"
    using Suc.prems(2) s1 s2 by simp
  have earlier: "\<forall>k<N. \<exists>sk. rounds k cbs lp s2 = Inr sk \<and> \<not> finished (fst sk)"
  proof (intro allI impI)
    fix k assume "k < N"
    then have "Suc k < Suc N" by simp
    then have "\<exists>sk. rounds (Suc k) cbs lp s0 = Inr sk \<and> \<not> finished (fst sk)"
      using Suc.prems(1) by blast
    then show "\<exists>sk. rounds k cbs lp s2 = Inr sk \<and> \<not> finished (fst sk)"
      using s1 s2 by simp
  qed
  have "looping cbs lp s2 = Some (Inr sN)"
    using Suc.IH [OF earlier rest Suc.prems(3)] .
  then show ?case
    using down s1 s2 by (subst looping.simps) simp
qed

text \<open>From the assignment of \<^verbatim>\<open>DEINITIALISING\<close> on, whatever happens: the state is
  assigned, \<^verbatim>\<open>deinit\<close> is invoked, and the loop is not entered again.\<close>

lemma run_after_loop:
  assumes "try_block p h s = after_loop h s1"
  shows "\<exists>r es. run p h s = Some r
           \<and> trace_of r = snd s1 @ Set_run_state DEINITIALISING # Call_deinit # es
           \<and> count_list es Call_update_timers = 0 \<and> count_list es Call_loop = 0"
proof (cases "invoke Call_deinit (deinit h) (set_run_state DEINITIALISING s1)")
  case (Inl e)
  obtain ex s2 where e: "e = (ex, s2)" by (cases e)
  have s2: "snd s2 = snd s1 @ [Set_run_state DEINITIALISING, Call_deinit]"
    using trace_of_invoke [of Call_deinit "deinit h" "set_run_state DEINITIALISING s1"] Inl e
    by (simp add: trace_of_simps set_run_state_def)
  have "run p h s = Some (on_exception h ex s2)"
    using assms Inl e by (simp add: run_def after_loop_def and_then_simps)
  moreover have "trace_of (on_exception h ex s2) = snd s2
      \<or> trace_of (on_exception h ex s2) = snd s2 @ [Call_deinit]"
    by (simp add: on_exception_def Let_def trace_of_invoke trace_of_simps)
  ultimately have "\<exists>r. run p h s = Some r
      \<and> (trace_of r = snd s1 @ Set_run_state DEINITIALISING # Call_deinit # []
          \<or> trace_of r = snd s1 @ Set_run_state DEINITIALISING # Call_deinit # [Call_deinit])"
    using s2 by auto
  then show ?thesis by fastforce
next
  case (Inr s2)
  have s2: "snd s2 = snd s1 @ [Set_run_state DEINITIALISING, Call_deinit]"
    using trace_of_invoke [of Call_deinit "deinit h" "set_run_state DEINITIALISING s1"] Inr
    by (simp add: trace_of_simps set_run_state_def)
  let ?last = "invoke Call_shutdown (shutdown h) (set_run_state SHUTTING_DOWN s2)"
  have last: "trace_of ?last = snd s1 @ Set_run_state DEINITIALISING # Call_deinit
      # [Set_run_state SHUTTING_DOWN, Call_shutdown]"
    using s2 by (simp add: trace_of_invoke set_run_state_def)
  have block: "try_block p h s = Some ?last"
    using assms Inr by (simp add: after_loop_def and_then_simps)
  show ?thesis
  proof (cases ?last)
    case (Inl e)
    obtain ex s3 where e: "e = (ex, s3)" by (cases e)
    have s3: "snd s3 = snd s1 @ Set_run_state DEINITIALISING # Call_deinit
        # [Set_run_state SHUTTING_DOWN, Call_shutdown]"
      using last Inl e by (simp add: trace_of_simps)
    have "run p h s = Some (on_exception h ex s3)"
      using block Inl e by (simp add: run_def)
    moreover have "trace_of (on_exception h ex s3) = snd s3
        \<or> trace_of (on_exception h ex s3) = snd s3 @ [Call_deinit]"
      by (simp add: on_exception_def Let_def trace_of_invoke trace_of_simps)
    ultimately have "\<exists>r. run p h s = Some r
        \<and> (trace_of r = snd s1 @ Set_run_state DEINITIALISING # Call_deinit
              # [Set_run_state SHUTTING_DOWN, Call_shutdown]
            \<or> trace_of r = snd s1 @ Set_run_state DEINITIALISING # Call_deinit
              # [Set_run_state SHUTTING_DOWN, Call_shutdown, Call_deinit])"
      using s3 by auto
    then show ?thesis by fastforce
  next
    case (Inr s3)
    have "run p h s = Some (Inr s3)"
      using block Inr by (simp add: run_def)
    moreover have "trace_of (Inr s3 :: 'a outcome) = snd s1 @ Set_run_state DEINITIALISING
        # Call_deinit # [Set_run_state SHUTTING_DOWN, Call_shutdown]"
      using last Inr by simp
    ultimately show ?thesis by fastforce
  qed
qed

subsection \<open>Leaving the loop\<close>

lemma run_with_rounds:
  assumes "before_loop p h (w, []) = Some (Inr s0)"
    and "\<forall>k<N. \<exists>sk. rounds k (callbacks h) (loop h) s0 = Inr sk \<and> \<not> finished (fst sk)"
    and "rounds N (callbacks h) (loop h) s0 = Inr sN"
    and "finished (fst sN)"
  shows "\<exists>r es. run p h (w, []) = Some r
           \<and> trace_of r = snd sN @ Set_run_state DEINITIALISING # Call_deinit # es
           \<and> count_list (trace_of r) Call_update_timers = N
           \<and> count_list (trace_of r) Call_loop = N"
proof -
  have "looping (callbacks h) (loop h) s0 = Some (Inr sN)"
    using assms(2-4) by (rule looping_unroll)
  then have "try_block p h (w, []) = after_loop h sN"
    using assms(1) by (simp add: try_block_def and_then_simps)
  then obtain r es where run: "run p h (w, []) = Some r"
    and trace: "trace_of r = snd sN @ Set_run_state DEINITIALISING # Call_deinit # es"
    and quiet: "count_list es Call_update_timers = 0" "count_list es Call_loop = 0"
    using run_after_loop by blast
  obtain rs where rs: "snd sN = snd s0 @ rs"
    "count_list rs Call_update_timers = N" "count_list rs Call_loop = N"
    using rounds_trace [OF assms(3)] by blast
  have entry: "count_list (snd s0) Call_update_timers = 0" "count_list (snd s0) Call_loop = 0"
    using before_loop_ok [OF assms(1)] by simp_all
  have "count_list (trace_of r) Call_update_timers = N" "count_list (trace_of r) Call_loop = N"
    using trace rs entry quiet by simp_all
  then show ?thesis
    using run trace by blast
qed

text \<open>
  C9. Let the loop be entered, let the flag \<^verbatim>\<open>finished\<close> be down at each of the first
  \<open>N\<close> tests of the loop condition, and let it be up when round \<open>N\<close> has been completed
  (\<^verbatim>\<open>finish\<close> was called during that round). Then the loop returns after that round, the
  pass over the timers and the \<^verbatim>\<open>loop\<close> hook have each been executed exactly \<open>N\<close>
  times in the whole run, and the next things \<^verbatim>\<open>run\<close> does are to assign
  \<^verbatim>\<open>DEINITIALISING\<close> and to invoke \<^verbatim>\<open>deinit\<close>.
\<close>

theorem finish_in_loop:
  assumes "before_loop p h (w, []) = Some (Inr s0)"
    and "\<forall>k<N. \<exists>sk. rounds k (callbacks h) (loop h) s0 = Inr sk \<and> \<not> finished (fst sk)"
    and "rounds N (callbacks h) (loop h) s0 = Inr sN"
    and "finished (fst sN)"
  shows "looping (callbacks h) (loop h) s0 = Some (Inr sN)
     \<and> map_option (\<lambda>r. count_list (trace_of r) Call_update_timers) (run p h (w, [])) = Some N
     \<and> map_option (\<lambda>r. count_list (trace_of r) Call_loop) (run p h (w, [])) = Some N
     \<and> (\<exists>es. map_option trace_of (run p h (w, []))
                = Some (snd sN @ Set_run_state DEINITIALISING # Call_deinit # es))"
proof -
  have "looping (callbacks h) (loop h) s0 = Some (Inr sN)"
    using assms(2-4) by (rule looping_unroll)
  moreover obtain r es where "run p h (w, []) = Some r"
    "trace_of r = snd sN @ Set_run_state DEINITIALISING # Call_deinit # es"
    "count_list (trace_of r) Call_update_timers = N" "count_list (trace_of r) Call_loop = N"
    using run_with_rounds [OF assms] by blast
  ultimately show ?thesis by simp
qed

lemma three_frames_entry:
  "before_loop board_ok three_frames (FeatherS2_new 0, [])
     = Some (Inr ((FeatherS2_new 0)\<lparr>debug_on := True, i2c := True, spi := True,
                    app_rtc := True, run_state := LOOPING\<rparr>,
                  [Set_run_state STARTING, Call_startup, Set_run_state NOT_STARTED,
                   Set_run_state INITIALISING, Call_init, Set_run_state LOOPING]))"
  by (simp add: before_loop_def startup_board_ok and_then_simps invoke_def three_frames_def
      base_hooks_def log_event_def set_run_state_def FeatherS2_new_def)

lemmas three_frames_defs =
  update_timers_def invoke_def three_frames_def base_hooks_def log_event_def finish_def
  FeatherS2_new_def

lemma three_frames_rounds:
  "rounds 0 (callbacks three_frames) (loop three_frames)
      ((FeatherS2_new 0)\<lparr>debug_on := True, i2c := True, spi := True, app_rtc := True,
                          run_state := LOOPING\<rparr>, tr)
     = Inr ((FeatherS2_new 0)\<lparr>debug_on := True, i2c := True, spi := True, app_rtc := True,
                                run_state := LOOPING\<rparr>, tr)"
  "rounds (Suc 0) (callbacks three_frames) (loop three_frames)
      ((FeatherS2_new 0)\<lparr>debug_on := True, i2c := True, spi := True, app_rtc := True,
                          run_state := LOOPING\<rparr>, tr)
     = Inr ((FeatherS2_new 0)\<lparr>debug_on := True, i2c := True, spi := True, app_rtc := True,
                                run_state := LOOPING, user := 1\<rparr>,
            tr @ [Call_update_timers, Call_loop])"
  "rounds (Suc (Suc 0)) (callbacks three_frames) (loop three_frames)
      ((FeatherS2_new 0)\<lparr>debug_on := True, i2c := True, spi := True, app_rtc := True,
                          run_state := LOOPING\<rparr>, tr)
     = Inr ((FeatherS2_new 0)\<lparr>debug_on := True, i2c := True, spi := True, app_rtc := True,
                                run_state := LOOPING, user := 2\<rparr>,
            tr @ [Call_update_timers, Call_loop, Call_update_timers, Call_loop])"
  "rounds 3 (callbacks three_frames) (loop three_frames)
      ((FeatherS2_new 0)\<lparr>debug_on := True, i2c := True, spi := True, app_rtc := True,
                          run_state := LOOPING\<rparr>, tr)
     = Inr ((FeatherS2_new 0)\<lparr>debug_on := True, i2c := True, spi := True, app_rtc := True,
                                run_state := LOOPING, user := 3, finished := True\<rparr>,
            tr @ [Call_update_timers, Call_loop, Call_update_timers, Call_loop,
                  Call_update_timers, Call_loop])"
  by (simp_all add: three_frames_defs numeral_3_eq_3)

lemma three_frames_down:
  "\<forall>k<3. \<exists>sk. rounds k (callbacks three_frames) (loop three_frames)
      ((FeatherS2_new 0)\<lparr>debug_on := True, i2c := True, spi := True, app_rtc := True,
                          run_state := LOOPING\<rparr>, tr) = Inr sk
     \<and> \<not> finished (fst sk)"
proof (intro allI impI)
  fix k :: nat assume "k < 3"
  then consider "k = 0" | "k = Suc 0" | "k = Suc (Suc 0)"
    by linarith
  then show "\<exists>sk. rounds k (callbacks three_frames) (loop three_frames)
      ((FeatherS2_new 0)\<lparr>debug_on := True, i2c := True, spi := True, app_rtc := True,
                          run_state := LOOPING\<rparr>, tr) = Inr sk
     \<and> \<not> finished (fst sk)"
  proof cases
    case 1
    then show ?thesis using three_frames_rounds(1) [of tr] by (simp add: FeatherS2_new_def)
  next
    case 2
    then show ?thesis using three_frames_rounds(2) [of tr] by (simp add: FeatherS2_new_def)
  next
    case 3
    then show ?thesis using three_frames_rounds(3) [of tr] by (simp add: FeatherS2_new_def)
  qed
qed

text \<open>The \<^verbatim>\<open>loop\<close> hook calls \<^verbatim>\<open>finish\<close> in its third call: three passes over the
  timers, three calls of \<^verbatim>\<open>loop\<close>, then \<^verbatim>\<open>DEINITIALISING\<close>.\<close>

theorem finish_in_loop_witness:
  "map_option (\<lambda>r. count_list (trace_of r) Call_update_timers)
      (run board_ok three_frames (FeatherS2_new 0, [])) = Some 3
   \<and> map_option (\<lambda>r. count_list (trace_of r) Call_loop)
        (run board_ok three_frames (FeatherS2_new 0, [])) = Some 3
   \<and> (\<exists>es. map_option trace_of (run board_ok three_frames (FeatherS2_new 0, []))
         = Some ([Set_run_state STARTING, Call_startup, Set_run_state NOT_STARTED,
                  Set_run_state INITIALISING, Call_init, Set_run_state LOOPING,
                  Call_update_timers, Call_loop, Call_update_timers, Call_loop,
                  Call_update_timers, Call_loop]
                 @ Set_run_state DEINITIALISING # Call_deinit # es))"
proof -
  have up: "finished (fst ((FeatherS2_new (0::nat))\<lparr>debug_on := True, i2c := True, spi := True,
      app_rtc := True, run_state := LOOPING, user := 3, finished := True\<rparr>,
      [Set_run_state STARTING, Call_startup, Set_run_state NOT_STARTED,
       Set_run_state INITIALISING, Call_init, Set_run_state LOOPING]
      @ [Call_update_timers, Call_loop, Call_update_timers, Call_loop,
         Call_update_timers, Call_loop]))"
    by simp
  show ?thesis
    using finish_in_loop [OF three_frames_entry three_frames_down three_frames_rounds(4) up]
    by simp
qed

subsection \<open>Faults in the last two phases\<close>

lemma flaky_deinit_entry:
  "before_loop board_ok flaky_deinit (FeatherS2_new 0, [])
     = Some (Inr ((FeatherS2_new 0)\<lparr>debug_on := True, i2c := True, spi := True,
                    app_rtc := True, run_state := LOOPING\<rparr>,
                  [Set_run_state STARTING, Call_startup, Set_run_state NOT_STARTED,
                   Set_run_state INITIALISING, Call_init, Set_run_state LOOPING]))"
  by (simp add: before_loop_def startup_board_ok and_then_simps invoke_def flaky_deinit_def
      base_hooks_def log_event_def set_run_state_def FeatherS2_new_def)

lemma flaky_deinit_loop:
  "looping (callbacks flaky_deinit) (loop flaky_deinit)
      ((FeatherS2_new 0)\<lparr>debug_on := True, i2c := True, spi := True, app_rtc := True,
                          run_state := LOOPING\<rparr>,
       [Set_run_state STARTING, Call_startup, Set_run_state NOT_STARTED,
        Set_run_state INITIALISING, Call_init, Set_run_state LOOPING])
     = Some (Inr ((FeatherS2_new 0)\<lparr>debug_on := True, i2c := True, spi := True,
                    app_rtc := True, run_state := LOOPING, finished := True\<rparr>,
                  [Set_run_state STARTING, Call_startup, Set_run_state NOT_STARTED,
                   Set_run_state INITIALISING, Call_init, Set_run_state LOOPING,
                   Call_update_timers, Call_loop]))"
proof (rule looping_unroll [where N = "Suc 0"])
  show "\<forall>k<Suc 0. \<exists>sk. rounds k (callbacks flaky_deinit) (loop flaky_deinit)
      ((FeatherS2_new 0)\<lparr>debug_on := True, i2c := True, spi := True, app_rtc := True,
                          run_state := LOOPING\<rparr>,
       [Set_run_state STARTING, Call_startup, Set_run_state NOT_STARTED,
        Set_run_state INITIALISING, Call_init, Set_run_state LOOPING]) = Inr sk
      \<and> \<not> finished (fst sk)"
    by (simp add: FeatherS2_new_def)
qed (simp_all add: update_timers_def invoke_def flaky_deinit_def base_hooks_def log_event_def
      finish_def FeatherS2_new_def)

lemma failing_shutdown_entry:
  "before_loop board_ok failing_shutdown (FeatherS2_new 0, [])
     = Some (Inr ((FeatherS2_new 0)\<lparr>debug_on := True, i2c := True, spi := True,
                    app_rtc := True, run_state := LOOPING\<rparr>,
                  [Set_run_state STARTING, Call_startup, Set_run_state NOT_STARTED,
                   Set_run_state INITIALISING, Call_init, Set_run_state LOOPING]))"
  by (simp add: before_loop_def startup_board_ok and_then_simps invoke_def failing_shutdown_def
      base_hooks_def log_event_def set_run_state_def FeatherS2_new_def)

lemma failing_shutdown_loop:
  "looping (callbacks failing_shutdown) (loop failing_shutdown)
      ((FeatherS2_new 0)\<lparr>debug_on := True, i2c := True, spi := True, app_rtc := True,
                          run_state := LOOPING\<rparr>,
       [Set_run_state STARTING, Call_startup, Set_run_state NOT_STARTED,
        Set_run_state INITIALISING, Call_init, Set_run_state LOOPING])
     = Some (Inr ((FeatherS2_new 0)\<lparr>debug_on := True, i2c := True, spi := True,
                    app_rtc := True, run_state := LOOPING, finished := True\<rparr>,
                  [Set_run_state STARTING, Call_startup, Set_run_state NOT_STARTED,
                   Set_run_state INITIALISING, Call_init, Set_run_state LOOPING,
                   Call_update_timers, Call_loop]))"
proof (rule looping_unroll [where N = "Suc 0"])
  show "\<forall>k<Suc 0. \<exists>sk. rounds k (callbacks failing_shutdown) (loop failing_shutdown)
      ((FeatherS2_new 0)\<lparr>debug_on := True, i2c := True, spi := True, app_rtc := True,
                          run_state := LOOPING\<rparr>,
       [Set_run_state STARTING, Call_startup, Set_run_state NOT_STARTED,
        Set_run_state INITIALISING, Call_init, Set_run_state LOOPING]) = Inr sk
      \<and> \<not> finished (fst sk)"
    by (simp add: FeatherS2_new_def)
qed (simp_all add: update_timers_def invoke_def failing_shutdown_def base_hooks_def log_event_def
      finish_def FeatherS2_new_def)

text \<open>
  C5, as the code has it. The calls of \<^verbatim>\<open>deinit\<close> and \<^verbatim>\<open>shutdown\<close> stand inside the
  \<^verbatim>\<open>try\<close> block. When the \<^verbatim>\<open>deinit\<close> hook raises in state \<^verbatim>\<open>DEINITIALISING\<close> of a
  run without a fault so far, the handler of \<^verbatim>\<open>run\<close> catches the exception, sets the exit
  code to the ordinal of \<^verbatim>\<open>DEINITIALISING\<close> and invokes \<^verbatim>\<open>deinit\<close> a second time;
  \<^verbatim>\<open>run\<close> yields what the second call yields, so only an exception of the second call
  reaches the caller. When \<^verbatim>\<open>deinit\<close> returns and \<^verbatim>\<open>shutdown\<close> raises in state
  \<^verbatim>\<open>SHUTTING_DOWN\<close>, the handler catches that exception as well: the exit code is set
  to the ordinal of \<^verbatim>\<open>SHUTTING_DOWN\<close>, nothing more is invoked, and \<^verbatim>\<open>run\<close> returns.
\<close>

theorem teardown_fault:
  assumes "before_loop p h (w, []) = Some (Inr s0)"
    and "looping (callbacks h) (loop h) s0 = Some (Inr s1)"
  shows "(deinit h ((fst s1)\<lparr>run_state := DEINITIALISING\<rparr>) = Inl (ex, w')
            \<and> run_state w' = DEINITIALISING \<longrightarrow>
          run p h (w, []) =
            Some (invoke Call_deinit (deinit h)
                    (w'\<lparr>exit_code := DEINITIALISING\<rparr>,
                     snd s1 @ [Set_run_state DEINITIALISING, Call_deinit]))
          \<and> map_option (\<lambda>r. count_list (trace_of r) Call_deinit) (run p h (w, [])) = Some 2)
     \<and> (deinit h ((fst s1)\<lparr>run_state := DEINITIALISING\<rparr>) = Inr w2
            \<and> shutdown h (w2\<lparr>run_state := SHUTTING_DOWN\<rparr>) = Inl (ex, w')
            \<and> run_state w' = SHUTTING_DOWN \<longrightarrow>
          run p h (w, []) =
            Some (Inr (w'\<lparr>exit_code := SHUTTING_DOWN\<rparr>,
                       snd s1 @ [Set_run_state DEINITIALISING, Call_deinit,
                                 Set_run_state SHUTTING_DOWN, Call_shutdown])))"
proof (intro conjI impI)
  assume raised: "deinit h ((fst s1)\<lparr>run_state := DEINITIALISING\<rparr>) = Inl (ex, w')
            \<and> run_state w' = DEINITIALISING"
  let ?tr = "snd s1 @ [Set_run_state DEINITIALISING, Call_deinit]"
  have "invoke Call_deinit (deinit h) (set_run_state DEINITIALISING s1) = Inl (ex, (w', ?tr))"
    using raised by (simp add: invoke_def set_run_state_def)
  then have "try_block p h (w, []) = Some (Inl (ex, (w', ?tr)))"
    using assms by (simp add: try_block_def after_loop_def and_then_simps)
  then have "run p h (w, []) = Some (on_exception h ex (w', ?tr))"
    by (simp add: run_def)
  moreover have "on_exception h ex (w', ?tr) =
      invoke Call_deinit (deinit h) (w'\<lparr>exit_code := DEINITIALISING\<rparr>, ?tr)"
    using raised by (simp add: on_exception_def Let_def DEINITIALISING_def SHUTTING_DOWN_def)
  ultimately show yields: "run p h (w, []) =
      Some (invoke Call_deinit (deinit h) (w'\<lparr>exit_code := DEINITIALISING\<rparr>, ?tr))"
    by simp
  obtain es where es: "snd s1 = snd s0 @ es" "round_events es"
    using looping_trace [OF assms(2)] by (auto simp: trace_of_simps)
  have "count_list (snd s0) Call_deinit = 0"
    using before_loop_ok [OF assms(1)] by simp
  then have "count_list (snd s1) Call_deinit = 0"
    using es round_events_no_deinit by simp
  then show "map_option (\<lambda>r. count_list (trace_of r) Call_deinit) (run p h (w, [])) = Some 2"
    using yields by (simp add: trace_of_invoke)
next
  assume raised: "deinit h ((fst s1)\<lparr>run_state := DEINITIALISING\<rparr>) = Inr w2
            \<and> shutdown h (w2\<lparr>run_state := SHUTTING_DOWN\<rparr>) = Inl (ex, w')
            \<and> run_state w' = SHUTTING_DOWN"
  let ?tr = "snd s1 @ [Set_run_state DEINITIALISING, Call_deinit,
                       Set_run_state SHUTTING_DOWN, Call_shutdown]"
  have "invoke Call_deinit (deinit h) (set_run_state DEINITIALISING s1)
      = Inr (w2, snd s1 @ [Set_run_state DEINITIALISING, Call_deinit])"
    using raised by (simp add: invoke_def set_run_state_def)
  moreover have "invoke Call_shutdown (shutdown h)
        (set_run_state SHUTTING_DOWN (w2, snd s1 @ [Set_run_state DEINITIALISING, Call_deinit]))
      = Inl (ex, (w', ?tr))"
    using raised by (simp add: invoke_def set_run_state_def)
  ultimately have "try_block p h (w, []) = Some (Inl (ex, (w', ?tr)))"
    using assms by (simp add: try_block_def after_loop_def and_then_simps)
  then have "run p h (w, []) = Some (on_exception h ex (w', ?tr))"
    by (simp add: run_def)
  moreover have "on_exception h ex (w', ?tr) = Inr (w'\<lparr>exit_code := SHUTTING_DOWN\<rparr>, ?tr)"
    using raised by (simp add: on_exception_def Let_def)
  ultimately show "run p h (w, []) = Some (Inr (w'\<lparr>exit_code := SHUTTING_DOWN\<rparr>, ?tr))"
    by simp
qed

text \<open>The first call of \<^verbatim>\<open>deinit\<close> raises, the second returns: \<^verbatim>\<open>run\<close> returns with
  exit code 5. And \<^verbatim>\<open>shutdown\<close> raises after a \<^verbatim>\<open>deinit\<close> that returned: \<^verbatim>\<open>run\<close>
  returns with exit code 6, and \<^verbatim>\<open>deinit\<close> has been called once.\<close>

theorem teardown_fault_witness:
  "deinit flaky_deinit
      ((FeatherS2_new 0)\<lparr>debug_on := True, i2c := True, spi := True, app_rtc := True,
                          run_state := LOOPING, finished := True,
                          run_state := DEINITIALISING\<rparr>)
     = Inl (Fault ''publish failed'',
            (FeatherS2_new 0)\<lparr>debug_on := True, i2c := True, spi := True, app_rtc := True,
                                finished := True, run_state := DEINITIALISING, user := 1\<rparr>)
   \<and> run board_ok flaky_deinit (FeatherS2_new 0, [])
       = Some (Inr ((FeatherS2_new 0)\<lparr>debug_on := True, i2c := True, spi := True,
                      app_rtc := True, finished := True, run_state := DEINITIALISING,
                      user := 1, exit_code := DEINITIALISING\<rparr>,
                    [Set_run_state STARTING, Call_startup, Set_run_state NOT_STARTED,
                     Set_run_state INITIALISING, Call_init, Set_run_state LOOPING,
                     Call_update_timers, Call_loop, Set_run_state DEINITIALISING, Call_deinit,
                     Call_deinit]))
   \<and> shutdown failing_shutdown
        ((FeatherS2_new 0)\<lparr>debug_on := True, i2c := True, spi := True, app_rtc := True,
                            finished := True, run_state := SHUTTING_DOWN\<rparr>)
       = Inl (Fault ''shutdown failed'',
              (FeatherS2_new 0)\<lparr>debug_on := True, i2c := True, spi := True, app_rtc := True,
                                  finished := True, run_state := SHUTTING_DOWN\<rparr>)
   \<and> run board_ok failing_shutdown (FeatherS2_new 0, [])
       = Some (Inr ((FeatherS2_new 0)\<lparr>debug_on := True, i2c := True, spi := True,
                      app_rtc := True, finished := True, run_state := SHUTTING_DOWN,
                      exit_code := SHUTTING_DOWN\<rparr>,
                    [Set_run_state STARTING, Call_startup, Set_run_state NOT_STARTED,
                     Set_run_state INITIALISING, Call_init, Set_run_state LOOPING,
                     Call_update_timers, Call_loop, Set_run_state DEINITIALISING, Call_deinit,
                     Set_run_state SHUTTING_DOWN, Call_shutdown]))"
proof -
  let ?tr1 = "[Set_run_state STARTING, Call_startup, Set_run_state NOT_STARTED,
        Set_run_state INITIALISING, Call_init, Set_run_state LOOPING,
        Call_update_timers, Call_loop]"
  let ?w1 = "(FeatherS2_new (0::nat))\<lparr>debug_on := True, i2c := True, spi := True,
                app_rtc := True, run_state := LOOPING, finished := True\<rparr>"
  let ?w' = "(FeatherS2_new (0::nat))\<lparr>debug_on := True, i2c := True, spi := True,
                app_rtc := True, finished := True, run_state := DEINITIALISING, user := 1\<rparr>"
  have raised: "deinit flaky_deinit ((fst (?w1, ?tr1))\<lparr>run_state := DEINITIALISING\<rparr>)
      = Inl (Fault ''publish failed'', ?w')"
    by (simp add: flaky_deinit_def base_hooks_def FeatherS2_new_def)
  have state: "run_state ?w' = DEINITIALISING"
    by simp
  note fault = teardown_fault [OF flaky_deinit_entry flaky_deinit_loop, THEN conjunct1,
      rule_format, OF conjI, OF raised state]
  have returned: "run board_ok flaky_deinit (FeatherS2_new 0, [])
       = Some (Inr (?w'\<lparr>exit_code := DEINITIALISING\<rparr>,
                    ?tr1 @ [Set_run_state DEINITIALISING, Call_deinit, Call_deinit]))"
    using fault [THEN conjunct1]
    by (simp add: invoke_def flaky_deinit_def base_hooks_def FeatherS2_new_def)
  let ?w2 = "(FeatherS2_new (0::nat))\<lparr>debug_on := True, i2c := True, spi := True,
                app_rtc := True, finished := True, run_state := DEINITIALISING\<rparr>"
  let ?w3 = "(FeatherS2_new (0::nat))\<lparr>debug_on := True, i2c := True, spi := True,
                app_rtc := True, finished := True, run_state := SHUTTING_DOWN\<rparr>"
  have deinited: "deinit failing_shutdown ((fst (?w1, ?tr1))\<lparr>run_state := DEINITIALISING\<rparr>)
      = Inr ?w2"
    by (simp add: failing_shutdown_def base_hooks_def FeatherS2_new_def)
  have raised_s: "shutdown failing_shutdown (?w2\<lparr>run_state := SHUTTING_DOWN\<rparr>)
      = Inl (Fault ''shutdown failed'', ?w3)"
    by (simp add: failing_shutdown_def base_hooks_def FeatherS2_new_def)
  have state_s: "run_state ?w3 = SHUTTING_DOWN"
    by simp
  note fault_s = teardown_fault [OF failing_shutdown_entry failing_shutdown_loop,
      THEN conjunct2, rule_format, OF conjI, OF deinited conjI, OF raised_s state_s]
  have returned_s: "run board_ok failing_shutdown (FeatherS2_new 0, [])
       = Some (Inr (?w3\<lparr>exit_code := SHUTTING_DOWN\<rparr>,
                    ?tr1 @ [Set_run_state DEINITIALISING, Call_deinit,
                            Set_run_state SHUTTING_DOWN, Call_shutdown]))"
    using fault_s by simp
  have raised': "deinit flaky_deinit
      ((FeatherS2_new 0)\<lparr>debug_on := True, i2c := True, spi := True, app_rtc := True,
                          run_state := LOOPING, finished := True,
                          run_state := DEINITIALISING\<rparr>)
     = Inl (Fault ''publish failed'', ?w')"
    using raised by simp
  have raised_s': "shutdown failing_shutdown ?w3 = Inl (Fault ''shutdown failed'', ?w3)"
    using raised_s by simp
  show ?thesis
    using raised' returned raised_s' returned_s by simp
qed

text \<open>
  C5 as stated fails. The \<^verbatim>\<open>deinit\<close> hook raises in state \<^verbatim>\<open>DEINITIALISING\<close> of a run
  without a fault so far; nothing reaches the caller: \<^verbatim>\<open>run\<close> returns, with the exit
  code the handler has set, after the handler has called \<^verbatim>\<open>deinit\<close> again. Nor does an
  exception of \<^verbatim>\<open>shutdown\<close> reach the caller.
\<close>

theorem teardown_fault_counterexample:
  "map_option isl (run board_ok flaky_deinit (FeatherS2_new 0, [])) = Some False
   \<and> map_option (exit_code \<circ> world_of) (run board_ok flaky_deinit (FeatherS2_new 0, []))
       = Some DEINITIALISING
   \<and> map_option trace_of (run board_ok flaky_deinit (FeatherS2_new 0, []))
       = Some [Set_run_state STARTING, Call_startup, Set_run_state NOT_STARTED,
               Set_run_state INITIALISING, Call_init, Set_run_state LOOPING,
               Call_update_timers, Call_loop, Set_run_state DEINITIALISING, Call_deinit,
               Call_deinit]
   \<and> map_option isl (run board_ok failing_shutdown (FeatherS2_new 0, [])) = Some False
   \<and> map_option (exit_code \<circ> world_of) (run board_ok failing_shutdown (FeatherS2_new 0, []))
       = Some SHUTTING_DOWN
   \<and> map_option trace_of (run board_ok failing_shutdown (FeatherS2_new 0, []))
       = Some [Set_run_state STARTING, Call_startup, Set_run_state NOT_STARTED,
               Set_run_state INITIALISING, Call_init, Set_run_state LOOPING,
               Call_update_timers, Call_loop, Set_run_state DEINITIALISING, Call_deinit,
               Set_run_state SHUTTING_DOWN, Call_shutdown]"
proof -
  let ?s1 = "((FeatherS2_new (0::nat))\<lparr>debug_on := True, i2c := True, spi := True,
                app_rtc := True, run_state := LOOPING, finished := True\<rparr>,
              [Set_run_state STARTING, Call_startup, Set_run_state NOT_STARTED,
               Set_run_state INITIALISING, Call_init, Set_run_state LOOPING,
               Call_update_timers, Call_loop])"
  have "try_block board_ok flaky_deinit (FeatherS2_new 0, []) = after_loop flaky_deinit ?s1"
    by (simp add: try_block_def flaky_deinit_entry flaky_deinit_loop and_then_simps)
  moreover have "after_loop flaky_deinit ?s1
      = Some (Inl (Fault ''publish failed'',
          ((FeatherS2_new 0)\<lparr>debug_on := True, i2c := True, spi := True, app_rtc := True,
                               finished := True, run_state := DEINITIALISING, user := 1\<rparr>,
           [Set_run_state STARTING, Call_startup, Set_run_state NOT_STARTED,
            Set_run_state INITIALISING, Call_init, Set_run_state LOOPING,
            Call_update_timers, Call_loop, Set_run_state DEINITIALISING, Call_deinit])))"
    by (simp add: after_loop_def and_then_simps invoke_def set_run_state_def flaky_deinit_def
        base_hooks_def FeatherS2_new_def)
  ultimately have flaky:
    "map_option isl (run board_ok flaky_deinit (FeatherS2_new 0, [])) = Some False
     \<and> map_option (exit_code \<circ> world_of) (run board_ok flaky_deinit (FeatherS2_new 0, []))
         = Some DEINITIALISING
     \<and> map_option trace_of (run board_ok flaky_deinit (FeatherS2_new 0, []))
         = Some [Set_run_state STARTING, Call_startup, Set_run_state NOT_STARTED,
                 Set_run_state INITIALISING, Call_init, Set_run_state LOOPING,
                 Call_update_timers, Call_loop, Set_run_state DEINITIALISING, Call_deinit,
                 Call_deinit]"
    by (simp add: run_def on_exception_def invoke_def Let_def flaky_deinit_def base_hooks_def
        FeatherS2_new_def world_of_def trace_of_def DEINITIALISING_def SHUTTING_DOWN_def)
  have "try_block board_ok failing_shutdown (FeatherS2_new 0, [])
      = after_loop failing_shutdown ?s1"
    by (simp add: try_block_def failing_shutdown_entry failing_shutdown_loop and_then_simps)
  moreover have "after_loop failing_shutdown ?s1
      = Some (Inl (Fault ''shutdown failed'',
          ((FeatherS2_new 0)\<lparr>debug_on := True, i2c := True, spi := True, app_rtc := True,
                               finished := True, run_state := SHUTTING_DOWN\<rparr>,
           [Set_run_state STARTING, Call_startup, Set_run_state NOT_STARTED,
            Set_run_state INITIALISING, Call_init, Set_run_state LOOPING,
            Call_update_timers, Call_loop, Set_run_state DEINITIALISING, Call_deinit,
            Set_run_state SHUTTING_DOWN, Call_shutdown])))"
    by (simp add: after_loop_def and_then_simps invoke_def set_run_state_def
        failing_shutdown_def base_hooks_def FeatherS2_new_def)
  ultimately have failing:
    "map_option isl (run board_ok failing_shutdown (FeatherS2_new 0, [])) = Some False
     \<and> map_option (exit_code \<circ> world_of) (run board_ok failing_shutdown (FeatherS2_new 0, []))
         = Some SHUTTING_DOWN
     \<and> map_option trace_of (run board_ok failing_shutdown (FeatherS2_new 0, []))
         = Some [Set_run_state STARTING, Call_startup, Set_run_state NOT_STARTED,
                 Set_run_state INITIALISING, Call_init, Set_run_state LOOPING,
                 Call_update_timers, Call_loop, Set_run_state DEINITIALISING, Call_deinit,
                 Set_run_state SHUTTING_DOWN, Call_shutdown]"
    by (simp add: run_def on_exception_def Let_def FeatherS2_new_def world_of_def
        trace_of_def SHUTTING_DOWN_def)
  show ?thesis
    using flaky failing by simp
qed

subsection \<open>Calls of finish outside the loop\<close>

lemma on_exception_trace:
  "trace_of (on_exception h ex s) = snd s \<or> trace_of (on_exception h ex s) = snd s @ [Call_deinit]"
  by (simp add: on_exception_def Let_def trace_of_invoke trace_of_simps)

text \<open>How often the two steps of the loop have run is settled when the loop is left:
  nothing that \<^verbatim>\<open>run\<close> does afterwards, on any path, runs them again.\<close>

lemma run_round_count:
  assumes "e = Call_loop \<or> e = Call_update_timers"
  shows "map_option (\<lambda>r. count_list (trace_of r) e) (run p h s)
       = map_option (\<lambda>r. count_list (trace_of r) e)
           (and_then (before_loop p h s) (looping (callbacks h) (loop h)))"
proof (cases "and_then (before_loop p h s) (looping (callbacks h) (loop h))")
  case None
  then have "try_block p h s = None"
    by (auto simp: try_block_def and_then_def split: option.splits sum.splits)
  then show ?thesis using None by (simp add: run_def)
next
  case (Some r)
  show ?thesis
  proof (cases r)
    case (Inl f)
    obtain ex s' where f: "f = (ex, s')" by (cases f)
    have "try_block p h s = Some (Inl (ex, s'))"
      using Some Inl f
      by (auto simp: try_block_def and_then_def split: option.splits sum.splits)
    then have "run p h s = Some (on_exception h ex s')"
      by (simp add: run_def)
    moreover have "count_list (trace_of (on_exception h ex s')) e = count_list (snd s') e"
      using on_exception_trace [of h ex s'] assms by auto
    ultimately show ?thesis
      using Some Inl f by (simp add: trace_of_simps)
  next
    case (Inr s1)
    have "try_block p h s = after_loop h s1"
      using Some Inr
      by (auto simp: try_block_def and_then_def split: option.splits sum.splits)
    then obtain r' es where "run p h s = Some r'"
      "trace_of r' = snd s1 @ Set_run_state DEINITIALISING # Call_deinit # es"
      "count_list es Call_update_timers = 0" "count_list es Call_loop = 0"
      using run_after_loop by blast
    then show ?thesis
      using Some Inr assms by (auto simp: trace_of_simps)
  qed
qed

text \<open>
  C6, as the code has it. A call of \<^verbatim>\<open>finish\<close> inside \<^verbatim>\<open>init\<close> does change the
  loop: when \<^verbatim>\<open>init\<close> returns with the flag \<^verbatim>\<open>finished\<close> set, the loop condition is
  false at its first test, and neither the pass over the timers nor the \<^verbatim>\<open>loop\<close> hook
  runs at all. A call of \<^verbatim>\<open>finish\<close> inside \<^verbatim>\<open>deinit\<close> changes nothing in the loop:
  how often the pass over the timers and the \<^verbatim>\<open>loop\<close> hook run is the same for every
  \<^verbatim>\<open>deinit\<close> hook.
\<close>

theorem finish_outside_loop:
  "(startup p (log_event Call_startup (set_run_state STARTING (w, []))) = Some (Inr s1)
      \<and> init h ((fst s1)\<lparr>run_state := INITIALISING\<rparr>) = Inr w2 \<and> finished w2 \<longrightarrow>
      map_option (\<lambda>r. count_list (trace_of r) Call_update_timers) (run p h (w, [])) = Some 0
      \<and> map_option (\<lambda>r. count_list (trace_of r) Call_loop) (run p h (w, [])) = Some 0)
   \<and> map_option (\<lambda>r. count_list (trace_of r) Call_update_timers) (run p (h\<lparr>deinit := d\<rparr>) s)
       = map_option (\<lambda>r. count_list (trace_of r) Call_update_timers) (run p h s)
   \<and> map_option (\<lambda>r. count_list (trace_of r) Call_loop) (run p (h\<lparr>deinit := d\<rparr>) s)
       = map_option (\<lambda>r. count_list (trace_of r) Call_loop) (run p h s)"
proof (intro conjI impI)
  assume init_finishes:
    "startup p (log_event Call_startup (set_run_state STARTING (w, []))) = Some (Inr s1)
      \<and> init h ((fst s1)\<lparr>run_state := INITIALISING\<rparr>) = Inr w2 \<and> finished w2"
  let ?s0 = "set_run_state LOOPING (w2, snd s1 @ [Set_run_state INITIALISING, Call_init])"
  have entered: "before_loop p h (w, []) = Some (Inr ?s0)"
    using init_finishes
    by (simp add: before_loop_def and_then_simps invoke_def set_run_state_def)
  have none_before: "\<forall>k<0. \<exists>sk. rounds k (callbacks h) (loop h) ?s0 = Inr sk \<and> \<not> finished (fst sk)"
    by simp
  have no_round: "rounds 0 (callbacks h) (loop h) ?s0 = Inr ?s0"
    by simp
  have up: "finished (fst ?s0)"
    using init_finishes by (simp add: set_run_state_def)
  obtain r es where "run p h (w, []) = Some r"
    "count_list (trace_of r) Call_update_timers = 0" "count_list (trace_of r) Call_loop = 0"
    using run_with_rounds [OF entered none_before no_round up] by blast
  then show "map_option (\<lambda>r. count_list (trace_of r) Call_update_timers) (run p h (w, [])) = Some 0"
    and "map_option (\<lambda>r. count_list (trace_of r) Call_loop) (run p h (w, [])) = Some 0"
    by simp_all
next
  have same: "and_then (before_loop p (h\<lparr>deinit := d\<rparr>) s)
        (looping (callbacks (h\<lparr>deinit := d\<rparr>)) (loop (h\<lparr>deinit := d\<rparr>)))
      = and_then (before_loop p h s) (looping (callbacks h) (loop h))"
    by (simp add: before_loop_def)
  show "map_option (\<lambda>r. count_list (trace_of r) Call_update_timers) (run p (h\<lparr>deinit := d\<rparr>) s)
       = map_option (\<lambda>r. count_list (trace_of r) Call_update_timers) (run p h s)"
    using run_round_count [of Call_update_timers p "h\<lparr>deinit := d\<rparr>" s]
      run_round_count [of Call_update_timers p h s] same
    by simp
  show "map_option (\<lambda>r. count_list (trace_of r) Call_loop) (run p (h\<lparr>deinit := d\<rparr>) s)
       = map_option (\<lambda>r. count_list (trace_of r) Call_loop) (run p h s)"
    using run_round_count [of Call_loop p "h\<lparr>deinit := d\<rparr>" s]
      run_round_count [of Call_loop p h s] same
    by simp
qed

text \<open>\<^verbatim>\<open>init\<close> calls \<^verbatim>\<open>finish\<close>: the loop of the application of three frames makes no
  round; and with \<^verbatim>\<open>finish\<close> called in \<^verbatim>\<open>deinit\<close> instead it makes the same rounds as
  without.\<close>

theorem finish_outside_loop_witness:
  "startup board_ok (log_event Call_startup (set_run_state STARTING (FeatherS2_new (0::nat), [])))
     = Some (Inr ((FeatherS2_new 0)\<lparr>debug_on := True, i2c := True, spi := True,
                    app_rtc := True, run_state := NOT_STARTED\<rparr>,
                  [Set_run_state STARTING, Call_startup, Set_run_state NOT_STARTED]))
   \<and> init finish_in_init
        ((FeatherS2_new 0)\<lparr>debug_on := True, i2c := True, spi := True, app_rtc := True,
                            run_state := INITIALISING\<rparr>)
       = Inr ((FeatherS2_new 0)\<lparr>debug_on := True, i2c := True, spi := True, app_rtc := True,
                                  run_state := INITIALISING, finished := True\<rparr>)
   \<and> map_option (\<lambda>r. count_list (trace_of r) Call_update_timers)
        (run board_ok finish_in_init (FeatherS2_new 0, [])) = Some 0
   \<and> map_option (\<lambda>r. count_list (trace_of r) Call_loop)
        (run board_ok finish_in_init (FeatherS2_new 0, [])) = Some 0
   \<and> map_option (\<lambda>r. count_list (trace_of r) Call_loop)
        (run board_ok (three_frames\<lparr>deinit := (\<lambda>w. Inr (finish w))\<rparr>) (FeatherS2_new 0, []))
       = map_option (\<lambda>r. count_list (trace_of r) Call_loop)
           (run board_ok three_frames (FeatherS2_new 0, []))"
proof -
  let ?s1 = "((FeatherS2_new (0::nat))\<lparr>debug_on := True, i2c := True, spi := True,
                app_rtc := True, run_state := NOT_STARTED\<rparr>,
              [Set_run_state STARTING, Call_startup, Set_run_state NOT_STARTED])"
  let ?w2 = "(FeatherS2_new (0::nat))\<lparr>debug_on := True, i2c := True, spi := True,
                app_rtc := True, run_state := INITIALISING, finished := True\<rparr>"
  have started: "startup board_ok
      (log_event Call_startup (set_run_state STARTING (FeatherS2_new (0::nat), []))) = Some (Inr ?s1)"
    by (simp add: startup_board_ok log_event_def set_run_state_def FeatherS2_new_def)
  have inited: "init finish_in_init ((fst ?s1)\<lparr>run_state := INITIALISING\<rparr>) = Inr ?w2"
    by (simp add: finish_in_init_def three_frames_def base_hooks_def finish_def
        FeatherS2_new_def)
  have up: "finished ?w2"
    by simp
  note outside = finish_outside_loop [of board_ok "FeatherS2_new 0" ?s1 finish_in_init ?w2]
  have none: "map_option (\<lambda>r. count_list (trace_of r) Call_update_timers)
        (run board_ok finish_in_init (FeatherS2_new 0, [])) = Some 0"
    "map_option (\<lambda>r. count_list (trace_of r) Call_loop)
        (run board_ok finish_in_init (FeatherS2_new 0, [])) = Some 0"
    using outside [THEN conjunct1] started inited up by simp_all
  have same: "map_option (\<lambda>r. count_list (trace_of r) Call_loop)
        (run board_ok (three_frames\<lparr>deinit := (\<lambda>w. Inr (finish w))\<rparr>) (FeatherS2_new 0, []))
       = map_option (\<lambda>r. count_list (trace_of r) Call_loop)
           (run board_ok three_frames (FeatherS2_new 0, []))"
    using finish_outside_loop [of board_ok "FeatherS2_new 0" ?s1 three_frames ?w2
        "\<lambda>w. Inr (finish w)" "(FeatherS2_new 0, [])", THEN conjunct2, THEN conjunct2] .
  have inited': "init finish_in_init
        ((FeatherS2_new 0)\<lparr>debug_on := True, i2c := True, spi := True, app_rtc := True,
                            run_state := INITIALISING\<rparr>) = Inr ?w2"
    using inited by simp
  show ?thesis
    using started inited' none same by simp
qed

text \<open>
  C6 as stated fails for \<^verbatim>\<open>init\<close>. The application whose \<^verbatim>\<open>loop\<close> hook calls
  \<^verbatim>\<open>finish\<close> in its third call makes three rounds; with a call of \<^verbatim>\<open>finish\<close> added
  to its \<^verbatim>\<open>init\<close>, it makes none.
\<close>

theorem finish_in_init_counterexample:
  "map_option (\<lambda>r. count_list (trace_of r) Call_loop)
      (run board_ok three_frames (FeatherS2_new 0, [])) = Some 3
   \<and> map_option (\<lambda>r. count_list (trace_of r) Call_loop)
        (run board_ok finish_in_init (FeatherS2_new 0, [])) = Some 0
   \<and> map_option trace_of (run board_ok finish_in_init (FeatherS2_new 0, []))
       = Some [Set_run_state STARTING, Call_startup, Set_run_state NOT_STARTED,
               Set_run_state INITIALISING, Call_init, Set_run_state LOOPING,
               Set_run_state DEINITIALISING, Call_deinit, Set_run_state SHUTTING_DOWN,
               Call_shutdown]"
proof -
  have up: "finished (fst ((FeatherS2_new (0::nat))\<lparr>debug_on := True, i2c := True, spi := True,
      app_rtc := True, run_state := LOOPING, user := 3, finished := True\<rparr>,
      [Set_run_state STARTING, Call_startup, Set_run_state NOT_STARTED,
       Set_run_state INITIALISING, Call_init, Set_run_state LOOPING]
      @ [Call_update_timers, Call_loop, Call_update_timers, Call_loop,
         Call_update_timers, Call_loop]))"
    by simp
  have three: "map_option (\<lambda>r. count_list (trace_of r) Call_loop)
      (run board_ok three_frames (FeatherS2_new 0, [])) = Some 3"
    using run_with_rounds [OF three_frames_entry three_frames_down three_frames_rounds(4) up]
    by auto
  let ?s0 = "((FeatherS2_new (0::nat))\<lparr>debug_on := True, i2c := True, spi := True,
                app_rtc := True, finished := True, run_state := LOOPING\<rparr>,
              [Set_run_state STARTING, Call_startup, Set_run_state NOT_STARTED,
               Set_run_state INITIALISING, Call_init, Set_run_state LOOPING])"
  have entered: "before_loop board_ok finish_in_init (FeatherS2_new 0, []) = Some (Inr ?s0)"
    by (simp add: before_loop_def startup_board_ok and_then_simps invoke_def finish_in_init_def
        three_frames_def base_hooks_def finish_def log_event_def set_run_state_def
        FeatherS2_new_def)
  have skipped: "looping (callbacks finish_in_init) (loop finish_in_init) ?s0 = Some (Inr ?s0)"
    by (subst looping.simps) simp
  have "try_block board_ok finish_in_init (FeatherS2_new 0, []) = after_loop finish_in_init ?s0"
    by (simp add: try_block_def entered skipped and_then_simps)
  then have "run board_ok finish_in_init (FeatherS2_new 0, [])
      = Some (Inr ((FeatherS2_new (0::nat))\<lparr>debug_on := True, i2c := True, spi := True,
                app_rtc := True, finished := True, run_state := SHUTTING_DOWN\<rparr>,
              [Set_run_state STARTING, Call_startup, Set_run_state NOT_STARTED,
               Set_run_state INITIALISING, Call_init, Set_run_state LOOPING,
               Set_run_state DEINITIALISING, Call_deinit, Set_run_state SHUTTING_DOWN,
               Call_shutdown]))"
    by (simp add: run_def after_loop_def and_then_simps invoke_def
        finish_in_init_def three_frames_def base_hooks_def log_event_def set_run_state_def
        FeatherS2_new_def)
  then show ?thesis
    using three by (simp add: trace_of_simps)
qed


subsection \<open>The order of the life-cycle states\<close>

lemma three_frames_run:
  "run board_ok three_frames (FeatherS2_new 0, [])
     = Some (Inr ((FeatherS2_new 0)\<lparr>debug_on := True, i2c := True, spi := True,
                    app_rtc := True, user := 3, finished := True,
                    run_state := SHUTTING_DOWN\<rparr>,
                  [Set_run_state STARTING, Call_startup, Set_run_state NOT_STARTED,
                   Set_run_state INITIALISING, Call_init, Set_run_state LOOPING,
                   Call_update_timers, Call_loop, Call_update_timers, Call_loop,
                   Call_update_timers, Call_loop,
                   Set_run_state DEINITIALISING, Call_deinit, Set_run_state SHUTTING_DOWN,
                   Call_shutdown]))"
proof -
  let ?s0 = "((FeatherS2_new (0::nat))\<lparr>debug_on := True, i2c := True, spi := True,
                app_rtc := True, run_state := LOOPING\<rparr>,
              [Set_run_state STARTING, Call_startup, Set_run_state NOT_STARTED,
               Set_run_state INITIALISING, Call_init, Set_run_state LOOPING])"
  let ?s3 = "((FeatherS2_new (0::nat))\<lparr>debug_on := True, i2c := True, spi := True,
                app_rtc := True, run_state := LOOPING, user := 3, finished := True\<rparr>,
              [Set_run_state STARTING, Call_startup, Set_run_state NOT_STARTED,
               Set_run_state INITIALISING, Call_init, Set_run_state LOOPING]
              @ [Call_update_timers, Call_loop, Call_update_timers, Call_loop,
                 Call_update_timers, Call_loop])"
  have up: "finished (fst ?s3)"
    by simp
  have "looping (callbacks three_frames) (loop three_frames) ?s0 = Some (Inr ?s3)"
    using three_frames_down three_frames_rounds(4) up by (rule looping_unroll)
  then have "try_block board_ok three_frames (FeatherS2_new 0, []) = after_loop three_frames ?s3"
    by (simp add: try_block_def three_frames_entry and_then_simps)
  then show ?thesis
    by (simp add: run_def after_loop_def and_then_simps invoke_def
        three_frames_def base_hooks_def log_event_def set_run_state_def FeatherS2_new_def)
qed

text \<open>
  C3 does not hold of the code. \<^verbatim>\<open>run\<close> assigns \<^verbatim>\<open>STARTING\<close> and calls
  \<^verbatim>\<open>startup\<close>, whose last lines assign \<^verbatim>\<open>NOT_STARTED\<close>: in a run on a board where
  every call of \<^verbatim>\<open>startup\<close> succeeds, the values assigned to \<^verbatim>\<open>run_state\<close> are, in
  order, 2, 1, 3, 4, 5, 6. The second assignment moves the state back to a lower ordinal.
\<close>

theorem run_state_goes_back:
  "map_option (run_states \<circ> trace_of) (run board_ok three_frames (FeatherS2_new 0, []))
     = Some [STARTING, NOT_STARTED, INITIALISING, LOOPING, DEINITIALISING, SHUTTING_DOWN]
   \<and> NOT_STARTED < STARTING"
  by (simp add: three_frames_run trace_of_simps NOT_STARTED_def STARTING_def)

end
